theory Spec2Isabelle
  imports Main
begin

section \<open>The backstores UI of targetcli (targetcli/ui_backstore.py)\<close>

text \<open>
  The module drives an external resource driver (rtslib) from a tree of UI nodes. The
  embedding keeps the driver's tree, the file system, the children of the five backstore
  nodes and the info/error log as an explicit state, passed through every operation;
  an exception is a value of the sum type, returned together with the state the
  operation has reached when it is raised. Debug-level log lines are left out.
\<close>

subsection \<open>Data model\<close>

datatype plugin = pscsi | rd_dr | rd_mcp | fileio | iblock

fun plugin_name :: "plugin \<Rightarrow> string" where
  "plugin_name pscsi = ''pscsi''"
| "plugin_name rd_dr = ''rd_dr''"
| "plugin_name rd_mcp = ''rd_mcp''"
| "plugin_name fileio = ''fileio''"
| "plugin_name iblock = ''iblock''"

datatype error =
    ExecutionError string
  | UnboundLocalError string
  | ValueError string
  | RTSLibError string

record backstore =
  bs_plugin :: plugin
  bs_index :: nat

text \<open>The arguments a storage object was created with, one constructor per class of rtslib.\<close>

datatype so_args =
    PSCSIArgs string
  | RDDRArgs string bool
  | RDMCPArgs string bool
  | FileIOArgs string "string option" bool bool
  | IBlockArgs string bool

record storage_object =
  so_backstore :: backstore
  so_name :: string
  so_args :: so_args

record rtsroot =
  backstores :: "backstore list"
  storage_objects :: "storage_object list"

record ui_so =
  node_name :: string
  rtsnode :: storage_object

datatype fs_node = RegularFile string | BlockDevice nat | DiskPartition | Directory

datatype level = Info | Error

record world =
  rts :: rtsroot
  fs :: "string \<rightharpoonup> fs_node"
  children :: "plugin \<Rightarrow> ui_so list"
  shell_log :: "(level \<times> string) list"

subsection \<open>String formatting\<close>

definition digit_char :: "nat \<Rightarrow> char" where
  "digit_char d = ''0123456789'' ! d"

text \<open>Python's \<^verbatim>\<open>"%d" % n\<close> and \<^verbatim>\<open>str(n)\<close> for a non-negative integer.\<close>

fun str_nat :: "nat \<Rightarrow> string" where
  "str_nat n = (if n < 10 then [digit_char n] else str_nat (n div 10) @ [digit_char (n mod 10)])"

declare str_nat.simps [simp del]

subsection \<open>dedup\_so\_name\<close>

definition dedup_so_name :: "rtsroot \<Rightarrow> storage_object \<Rightarrow> string" where
  "dedup_so_name root storage_object =
     (let names = map so_name
            (filter (\<lambda>so. bs_plugin (so_backstore so) = bs_plugin (so_backstore storage_object))
               (storage_objects root))
      in if count_list names (so_name storage_object) > 1
         then so_name storage_object @ ''_'' @ str_nat (bs_index (so_backstore storage_object))
         else so_name storage_object)"

subsection \<open>UIBackstore.next\_hba\_index\<close>

text \<open>
  A local variable of the Python function is unbound until it is assigned; once bound it
  holds \<^verbatim>\<open>None\<close> or an integer.
\<close>

datatype 'a local_var = Unbound | Bound 'a

text \<open>
  The loop \<^verbatim>\<open>for index in range(1048576)\<close>, from \<open>index\<close> on: it binds
  \<^verbatim>\<open>backstore_index\<close> at the first index that is not in \<open>indexes\<close> and breaks.
\<close>

function for_index :: "nat \<Rightarrow> nat \<Rightarrow> nat list \<Rightarrow> nat option local_var" where
  "for_index index stop indexes =
     (if index < stop
      then (if index \<notin> set indexes then Bound (Some index)
            else for_index (Suc index) stop indexes)
      else Unbound)"
  by pat_completeness auto
termination
  by (relation "measure (\<lambda>(index, stop, indexes). stop - index)") auto

declare for_index.simps [simp del]

definition hba_indexes :: "rtsroot \<Rightarrow> plugin \<Rightarrow> nat list" where
  "hba_indexes root self =
     map bs_index (filter (\<lambda>backstore. bs_plugin backstore = self) (backstores root))"

definition next_hba_index :: "plugin \<Rightarrow> rtsroot \<Rightarrow> error + nat" where
  "next_hba_index self root =
     (let indexes = hba_indexes root self
      in case for_index 0 1048576 indexes of
           Unbound \<Rightarrow>
             Inl (UnboundLocalError
                    ''local variable 'backstore_index' referenced before assignment'')
         | Bound None \<Rightarrow> Inl (ExecutionError ''Cannot find an available backstore index.'')
         | Bound (Some backstore_index) \<Rightarrow> Inr backstore_index)"

subsection \<open>UIBackstore.assert\_available\_so\_name\<close>

definition assert_available_so_name :: "plugin \<Rightarrow> string \<Rightarrow> world \<Rightarrow> error + unit" where
  "assert_available_so_name self name w =
     (let names = map node_name (children w self)
      in if name \<in> set names
         then Inl (ExecutionError
                (''Storage object '' @ plugin_name self @ ''/'' @ name @ '' already exist.''))
         else Inr ())"

subsection \<open>The environment: session, driver, file system\<close>

text \<open>
  What the module cannot decide itself is a parameter: whether the session is root, which
  driver calls the kernel refuses, whether a write to the disk fails, rtslib's size
  parser, and the order in which the shell library iterates over the set of children of a
  node: \<open>child_order\<close> gives, for the children that show a name, the position of
  the one the iteration meets first.
\<close>

record env =
  root_err :: "error option"
  hba_err :: "plugin \<Rightarrow> nat \<Rightarrow> error option"
  so_err :: "backstore \<Rightarrow> string \<Rightarrow> so_args \<Rightarrow> error option"
  write_err :: "string \<Rightarrow> bool"
  convert_human_to_bytes :: "string \<Rightarrow> error + nat"
  child_order :: "ui_so list \<Rightarrow> nat"

definition then_do ::
  "(error + 'a) \<times> world \<Rightarrow> ('a \<Rightarrow> world \<Rightarrow> (error + 'b) \<times> world) \<Rightarrow> (error + 'b) \<times> world" where
  "then_do m f = (case m of (Inl e, w) \<Rightarrow> (Inl e, w) | (Inr x, w) \<Rightarrow> f x w)"

definition log_info :: "string \<Rightarrow> world \<Rightarrow> world" where
  "log_info msg w = w\<lparr>shell_log := shell_log w @ [(Info, msg)]\<rparr>"

definition log_error :: "string \<Rightarrow> world \<Rightarrow> world" where
  "log_error msg w = w\<lparr>shell_log := shell_log w @ [(Error, msg)]\<rparr>"

text \<open>
  Modelled from the spec: \<^verbatim>\<open>UINode.assert_root\<close> (ui\_node.py) is not under src; it
  raises when the session is not root, which the environment decides.
\<close>

definition assert_root :: "env \<Rightarrow> error + unit" where
  "assert_root env = (case root_err env of Some e \<Rightarrow> Inl e | None \<Rightarrow> Inr ())"

text \<open>
  Modelled from the spec: the backstore and storage object classes of the resource driver
  are not under src. Section 6: \<^verbatim>\<open>createBackend(kind, index)\<close> fails with a driver-defined
  error if the index is already taken; \<^verbatim>\<open>createStorageObject\<close> fails with a driver-defined
  error; \<^verbatim>\<open>deleteBackend\<close> and \<^verbatim>\<open>deleteStorageObject\<close> remove the handle. A backstore
  is deleted together with the storage objects it still holds.
\<close>

definition Backstore :: "env \<Rightarrow> plugin \<Rightarrow> nat \<Rightarrow> world \<Rightarrow> (error + backstore) \<times> world" where
  "Backstore env plugin index w =
     (let hba = \<lparr>bs_plugin = plugin, bs_index = index\<rparr>
      in if hba \<in> set (backstores (rts w))
         then (Inl (RTSLibError ''This backstore already exists in configFS.''), w)
         else case hba_err env plugin index of
                Some e \<Rightarrow> (Inl e, w)
              | None \<Rightarrow>
                  (Inr hba, w\<lparr>rts := (rts w)\<lparr>backstores := backstores (rts w) @ [hba]\<rparr>\<rparr>))"

definition StorageObject ::
  "env \<Rightarrow> backstore \<Rightarrow> string \<Rightarrow> so_args \<Rightarrow> world \<Rightarrow> (error + storage_object) \<times> world" where
  "StorageObject env backstore name args w =
     (case so_err env backstore name args of
        Some e \<Rightarrow> (Inl e, w)
      | None \<Rightarrow>
          (let so = \<lparr>so_backstore = backstore, so_name = name, so_args = args\<rparr>
           in (Inr so,
               w\<lparr>rts := (rts w)\<lparr>storage_objects := storage_objects (rts w) @ [so]\<rparr>\<rparr>)))"

definition hba_storage_objects :: "backstore \<Rightarrow> rtsroot \<Rightarrow> storage_object list" where
  "hba_storage_objects hba root = filter (\<lambda>so. so_backstore so = hba) (storage_objects root)"

definition backstore_delete :: "backstore \<Rightarrow> world \<Rightarrow> world" where
  "backstore_delete hba w =
     w\<lparr>rts := (rts w)\<lparr>backstores := removeAll hba (backstores (rts w)),
                      storage_objects :=
                        filter (\<lambda>so. so_backstore so \<noteq> hba) (storage_objects (rts w))\<rparr>\<rparr>"

definition storage_object_delete :: "storage_object \<Rightarrow> world \<Rightarrow> world" where
  "storage_object_delete so w =
     w\<lparr>rts := (rts w)\<lparr>storage_objects := removeAll so (storage_objects (rts w))\<rparr>\<rparr>"

text \<open>The queries of \<^verbatim>\<open>rtslib.utils\<close> and \<^verbatim>\<open>os.path\<close> on the file system.\<close>

definition get_block_type :: "(string \<rightharpoonup> fs_node) \<Rightarrow> string \<Rightarrow> nat option" where
  "get_block_type files dev = (case files dev of Some (BlockDevice t) \<Rightarrow> Some t | _ \<Rightarrow> None)"

definition is_disk_partition :: "(string \<rightharpoonup> fs_node) \<Rightarrow> string \<Rightarrow> bool" where
  "is_disk_partition files dev = (case files dev of Some DiskPartition \<Rightarrow> True | _ \<Rightarrow> False)"

definition isfile :: "(string \<rightharpoonup> fs_node) \<Rightarrow> string \<Rightarrow> bool" where
  "isfile files path = (case files path of Some (RegularFile _) \<Rightarrow> True | _ \<Rightarrow> False)"

definition exists_path :: "(string \<rightharpoonup> fs_node) \<Rightarrow> string \<Rightarrow> bool" where
  "exists_path files path = (files path \<noteq> None)"

definition getsize :: "(string \<rightharpoonup> fs_node) \<Rightarrow> string \<Rightarrow> nat" where
  "getsize files path = (case files path of Some (RegularFile content) \<Rightarrow> length content | _ \<Rightarrow> 0)"

text \<open>
  The children of a node are a set kept by the shell library. The model lists them in the
  order they were registered; only membership is observed, but in \<^verbatim>\<open>get_child\<close>,
  where a name that several children show is resolved by the iteration order of the set,
  which the environment decides. \<^verbatim>\<open>get_child\<close> raises \<^verbatim>\<open>ValueError\<close> when no child
  shows the name.

  \<^verbatim>\<open>UIStorageObject(so, self)\<close> makes a node named after the storage object and registers
  it with its parent; the registration raises \<^verbatim>\<open>ValueError\<close> when a sibling shows that
  name already. Assigning to the name of a node afterwards is not checked; the node
  renamed is the one just registered, the only child that shows its name.
\<close>

definition UIStorageObject :: "storage_object \<Rightarrow> plugin \<Rightarrow> world \<Rightarrow> (error + ui_so) \<times> world" where
  "UIStorageObject storage_object parent w =
     (let name = so_name storage_object
      in if name \<in> set (map node_name (children w parent))
         then (Inl (ValueError (''Name '' @ name @ '' already used by a sibling.'')), w)
         else (let ui_so = \<lparr>node_name = name, rtsnode = storage_object\<rparr>
               in (Inr ui_so,
                   w\<lparr>children := (children w)(parent := children w parent @ [ui_so])\<rparr>)))"

definition set_name :: "plugin \<Rightarrow> ui_so \<Rightarrow> string \<Rightarrow> world \<Rightarrow> world" where
  "set_name parent ui_so name w =
     w\<lparr>children := (children w)(parent :=
          map (\<lambda>child. if child = ui_so then child\<lparr>node_name := name\<rparr> else child)
            (children w parent))\<rparr>"

definition get_child :: "env \<Rightarrow> plugin \<Rightarrow> string \<Rightarrow> world \<Rightarrow> error + ui_so" where
  "get_child env self name w =
     (let found = filter (\<lambda>child. node_name child = name) (children w self)
      in if found = []
         then Inl (ValueError (''No such path '' @ plugin_name self @ ''/'' @ name))
         else Inr (found ! (child_order env found mod length found)))"

definition remove_child :: "plugin \<Rightarrow> ui_so \<Rightarrow> world \<Rightarrow> world" where
  "remove_child self child w =
     w\<lparr>children := (children w)(self := removeAll child (children w self))\<rparr>"

subsection \<open>UIBackstore.refresh\<close>

text \<open>
  The loop of \<^verbatim>\<open>refresh\<close> over the storage objects of the driver: a node is registered
  under the stored name of its object and then renamed to the deduplicated name.
\<close>

fun refresh_loop :: "plugin \<Rightarrow> storage_object list \<Rightarrow> world \<Rightarrow> (error + unit) \<times> world" where
  "refresh_loop self [] w = (Inr (), w)"
| "refresh_loop self (so # sos) w =
     (if bs_plugin (so_backstore so) = self
      then (case UIStorageObject so self w of
              (Inl e, w) \<Rightarrow> (Inl e, w)
            | (Inr ui_so, w) \<Rightarrow>
                refresh_loop self sos (set_name self ui_so (dedup_so_name (rts w) so) w))
      else refresh_loop self sos w)"

definition refresh :: "plugin \<Rightarrow> world \<Rightarrow> (error + unit) \<times> world" where
  "refresh self w0 =
     (let w = w0\<lparr>children := (children w0)(self := [])\<rparr>
      in refresh_loop self (storage_objects (rts w)) w)"

text \<open>
  Modelled from the spec: \<^verbatim>\<open>UIRoot.refresh\<close> (ui\_root.py), reached by
  \<^verbatim>\<open>self.parent.parent.refresh()\<close>, is not under src; it rebuilds the tree, so the five
  backstore nodes are made anew, in the order of \<^verbatim>\<open>UIBackstores.refresh\<close>, and each
  runs \<^verbatim>\<open>UIBackstore.refresh\<close> when it is made.
\<close>

definition root_refresh :: "world \<Rightarrow> (error + unit) \<times> world" where
  "root_refresh w0 =
     (let w = w0\<lparr>children := (\<lambda>_. [])\<rparr>
      in then_do (refresh pscsi w) (\<lambda>_ w.
         then_do (refresh rd_dr w) (\<lambda>_ w.
         then_do (refresh rd_mcp w) (\<lambda>_ w.
         then_do (refresh fileio w) (\<lambda>_ w.
           refresh iblock w)))))"

text \<open>
  Modelled from the spec: \<^verbatim>\<open>UINode.new_node\<close> (ui\_node.py) is not under src. Section 4.4,
  step 6: on success, return a view wrapping the new StorageObject. A function that ends
  without \<^verbatim>\<open>return\<close> gives \<^verbatim>\<open>None\<close>.
\<close>

definition new_node :: "ui_so \<Rightarrow> ui_so option" where
  "new_node ui_so = Some ui_so"

definition ui_eval_param :: "bool option \<Rightarrow> bool \<Rightarrow> bool" where
  "ui_eval_param param dflt = (case param of None \<Rightarrow> dflt | Some b \<Rightarrow> b)"

subsection \<open>UIBackstore: parameters and deletion\<close>

definition prm_gen_wwn :: "bool option \<Rightarrow> world \<Rightarrow> bool \<times> world" where
  "prm_gen_wwn generate_wwn w =
     (let generate_wwn = ui_eval_param generate_wwn True
      in if generate_wwn then (generate_wwn, log_info ''Generating a wwn serial.'' w)
         else (generate_wwn, log_info ''Not generating a wwn serial.'' w))"

definition prm_buffered :: "bool option \<Rightarrow> world \<Rightarrow> bool \<times> world" where
  "prm_buffered buffered w =
     (let buffered = ui_eval_param buffered True
      in if buffered then (buffered, log_info ''Using buffered mode.'' w)
         else (buffered, log_info ''Not using buffered mode.'' w))"

definition ui_command_delete :: "env \<Rightarrow> plugin \<Rightarrow> string \<Rightarrow> world \<Rightarrow> (error + unit) \<times> world" where
  "ui_command_delete env self name w0 =
     then_do (assert_root env, w0) (\<lambda>_ w.
       case get_child env self name w of
         Inl (ValueError _) \<Rightarrow>
           (Inr (), log_error (''No storage object named '' @ name @ ''.'') w)
       | Inl e \<Rightarrow> (Inl e, w)
       | Inr child \<Rightarrow>
           (let hba = so_backstore (rtsnode child);
                w = storage_object_delete (rtsnode child) w;
                w = (if hba_storage_objects hba (rts w) = [] then backstore_delete hba w else w);
                w = remove_child self child w;
                w = log_info (''Deleted storage object '' @ name @ ''.'') w
            in root_refresh w))"

subsection \<open>The creation entry points\<close>

definition str_opt :: "string option \<Rightarrow> string" where
  "str_opt v = (case v of None \<Rightarrow> ''None'' | Some s \<Rightarrow> s)"

text \<open>Truth value of an optional string: \<^verbatim>\<open>None\<close> and the empty string are false.\<close>

definition truthy :: "string option \<Rightarrow> bool" where
  "truthy v = (case v of None \<Rightarrow> False | Some s \<Rightarrow> s \<noteq> [])"

definition is_dev_path :: "(string \<rightharpoonup> fs_node) \<Rightarrow> string \<Rightarrow> bool" where
  "is_dev_path files dev = (get_block_type files dev \<noteq> None \<or> is_disk_partition files dev)"

definition pscsi_ui_command_create ::
  "env \<Rightarrow> string \<Rightarrow> string \<Rightarrow> world \<Rightarrow> (error + ui_so option) \<times> world" where
  "pscsi_ui_command_create env name dev w0 =
     then_do (assert_root env, w0) (\<lambda>_ w.
     then_do (assert_available_so_name pscsi name w, w) (\<lambda>_ w.
     then_do (next_hba_index pscsi (rts w), w) (\<lambda>index w.
     then_do (Backstore env pscsi index w) (\<lambda>backstore w.
       (let w = (if is_dev_path (fs w) dev
                 then log_info ''Note: block backstore recommended for SCSI block devices'' w
                 else w)
        in case StorageObject env backstore name (PSCSIArgs dev) w of
             (Inl exception, w) \<Rightarrow> (Inl exception, backstore_delete backstore w)
           | (Inr so, w) \<Rightarrow>
               then_do (UIStorageObject so pscsi w) (\<lambda>ui_so w.
               (let w = log_info (''Created pscsi storage object '' @ name @ '' using '' @ dev) w
                in (Inr (new_node ui_so), w))))))))"

definition rd_dr_ui_command_create ::
  "env \<Rightarrow> string \<Rightarrow> string \<Rightarrow> bool option \<Rightarrow> world \<Rightarrow> (error + ui_so option) \<times> world" where
  "rd_dr_ui_command_create env name size' generate_wwn w0 =
     then_do (assert_root env, w0) (\<lambda>_ w.
     then_do (assert_available_so_name rd_dr name w, w) (\<lambda>_ w.
     then_do (next_hba_index rd_dr (rts w), w) (\<lambda>index w.
     then_do (Backstore env rd_dr index w) (\<lambda>backstore w.
       (let (gen_wwn, w) = prm_gen_wwn generate_wwn w
        in case StorageObject env backstore name (RDDRArgs size' gen_wwn) w of
             (Inl exception, w) \<Rightarrow> (Inl exception, backstore_delete backstore w)
           | (Inr so, w) \<Rightarrow>
               then_do (UIStorageObject so rd_dr w) (\<lambda>ui_so w.
               (let w = log_info (''Created rd_dr ramdisk '' @ name @ '' with size '' @ size' @ ''.'') w
                in (Inr (new_node ui_so), w))))))))"

definition rd_mcp_ui_command_create ::
  "env \<Rightarrow> string \<Rightarrow> string \<Rightarrow> bool option \<Rightarrow> world \<Rightarrow> (error + ui_so option) \<times> world" where
  "rd_mcp_ui_command_create env name size' generate_wwn w0 =
     then_do (assert_root env, w0) (\<lambda>_ w.
     then_do (assert_available_so_name rd_mcp name w, w) (\<lambda>_ w.
     then_do (next_hba_index rd_mcp (rts w), w) (\<lambda>index w.
     then_do (Backstore env rd_mcp index w) (\<lambda>backstore w.
       (let (gen_wwn, w) = prm_gen_wwn generate_wwn w
        in case StorageObject env backstore name (RDMCPArgs size' gen_wwn) w of
             (Inl exception, w) \<Rightarrow> (Inl exception, backstore_delete backstore w)
           | (Inr so, w) \<Rightarrow>
               then_do (UIStorageObject so rd_mcp w) (\<lambda>ui_so w.
               (let w = log_info (''Created rd_mcp ramdisk '' @ name @ '' with size '' @ size' @ ''.'') w
                in (Inr (new_node ui_so), w))))))))"

definition iblock_ui_command_create ::
  "env \<Rightarrow> string \<Rightarrow> string \<Rightarrow> bool option \<Rightarrow> world \<Rightarrow> (error + ui_so option) \<times> world" where
  "iblock_ui_command_create env name dev generate_wwn w0 =
     then_do (assert_root env, w0) (\<lambda>_ w.
     then_do (assert_available_so_name iblock name w, w) (\<lambda>_ w.
     then_do (next_hba_index iblock (rts w), w) (\<lambda>index w.
     then_do (Backstore env iblock index w) (\<lambda>backstore w.
       (let (gen_wwn, w) = prm_gen_wwn generate_wwn w
        in case StorageObject env backstore name (IBlockArgs dev gen_wwn) w of
             (Inl exception, w) \<Rightarrow> (Inl exception, backstore_delete backstore w)
           | (Inr so, w) \<Rightarrow>
               then_do (UIStorageObject so iblock w) (\<lambda>ui_so w.
               (let w = log_info (''Created iblock storage object '' @ name @ '' using '' @ dev @ ''.'') w
                in (Inr (new_node ui_so), w))))))))"

subsection \<open>UIFileIOBackstore\<close>

text \<open>
  The loop of \<^verbatim>\<open>_create_file\<close> that writes zero bytes in chunks of 1024, on the content
  written so far; \<open>None\<close> when a write raises \<^verbatim>\<open>IOError\<close>.
\<close>

function write_zeros :: "env \<Rightarrow> nat \<Rightarrow> string \<Rightarrow> string option" where
  "write_zeros env size' content =
     (if size' > 0
      then (if write_err env content then None
            else (let write_size = min size' 1024
                  in write_zeros env (size' - write_size)
                       (content @ replicate write_size (CHR 0x00))))
      else Some content)"
  by pat_completeness auto
termination
  by (relation "measure (\<lambda>(env, size', content). size')") auto

declare write_zeros.simps [simp del]

text \<open>
  \<^verbatim>\<open>open(filename, "w+")\<close> leaves an empty regular file at the path; a sparse file is
  truncated to the size and reads as zero bytes. Opening and truncating are taken to
  succeed.
\<close>

definition create_file ::
  "env \<Rightarrow> string \<Rightarrow> nat \<Rightarrow> bool \<Rightarrow> world \<Rightarrow> (error + unit) \<times> world" where
  "create_file env filename size' sparse w0 =
     (let w = w0\<lparr>fs := (fs w0)(filename \<mapsto> RegularFile [])\<rparr>
      in if sparse
         then (Inr (), w\<lparr>fs := (fs w)(filename \<mapsto> RegularFile (replicate size' (CHR 0x00)))\<rparr>)
         else (let w = log_info (''Writing '' @ str_nat size' @ '' bytes'') w
               in case write_zeros env size' [] of
                    None \<Rightarrow>
                      (Inl (ExecutionError ''Could not expand file to size''),
                       w\<lparr>fs := (fs w)(filename := None)\<rparr>)
                  | Some content \<Rightarrow>
                      (Inr (), w\<lparr>fs := (fs w)(filename \<mapsto> RegularFile content)\<rparr>)))"

definition fileio_ui_command_create ::
  "env \<Rightarrow> string \<Rightarrow> string \<Rightarrow> string option \<Rightarrow> bool option \<Rightarrow> bool option \<Rightarrow> bool option \<Rightarrow>
   world \<Rightarrow> (error + ui_so option) \<times> world" where
  "fileio_ui_command_create env name file_or_dev size' generate_wwn buffered sparse w0 =
     then_do (assert_root env, w0) (\<lambda>_ w.
     then_do (assert_available_so_name fileio name w, w) (\<lambda>_ w.
     (let sparse = ui_eval_param sparse True in
     then_do (next_hba_index fileio (rts w), w) (\<lambda>index w.
     then_do (Backstore env fileio index w) (\<lambda>backstore w.
     (let is_dev = is_dev_path (fs w) file_or_dev in
      if size' = None \<and> is_dev then
        then_do (next_hba_index fileio (rts w), w) (\<lambda>index w.
        then_do (Backstore env fileio index w) (\<lambda>backstore w.
          (let (gen_wwn, w) = prm_gen_wwn generate_wwn w;
               (buffered_mode, w) = prm_buffered buffered w
           in case StorageObject env backstore name
                     (FileIOArgs file_or_dev None gen_wwn buffered_mode) w of
                (Inl exception, w) \<Rightarrow> (Inl exception, backstore_delete backstore w)
              | (Inr so, w) \<Rightarrow>
                  (let w = log_info (''Created fileio '' @ name @ '' with size ''
                                       @ str_opt size' @ ''.'') w;
                       w = log_info ''Note: block backstore preferred for  best results.'' w
                   in then_do (UIStorageObject so fileio w) (\<lambda>ui_so w.
                        (Inr (new_node ui_so), w))))))
      else if size' \<noteq> None \<and> \<not> is_dev then
        then_do (next_hba_index fileio (rts w), w) (\<lambda>index w.
        then_do (Backstore env fileio index w) (\<lambda>backstore w.
          (let (gen_wwn, w) = prm_gen_wwn generate_wwn w;
               (buffered_mode, w) = prm_buffered buffered w
           in case StorageObject env backstore name
                     (FileIOArgs file_or_dev size' gen_wwn buffered_mode) w of
                (Inl exception, w) \<Rightarrow> (Inl exception, backstore_delete backstore w)
              | (Inr so, w) \<Rightarrow>
                  (let w = log_info (''Created fileio '' @ name @ ''.'') w
                   in then_do (UIStorageObject so fileio w) (\<lambda>ui_so w.
                        (Inr (new_node ui_so), w))))))
      else if isfile (fs w) file_or_dev then
        (let new_size = str_nat (getsize (fs w) file_or_dev);
             w = (if truthy size'
                  then log_info (file_or_dev @ '' exists, using its size ('' @ new_size
                                   @ '' bytes) instead'') w
                  else w);
             size' = Some new_size
         in (Inr None, w))
      else if exists_path (fs w) file_or_dev then
        (Inl (ExecutionError (''Path '' @ file_or_dev @ '' exists but is not a file'')), w)
      else
        (case size' of
           None \<Rightarrow>
             (Inl (ExecutionError
                     ''Attempting to create file for new fileio backstore, need a size''), w)
         | Some s \<Rightarrow>
             if \<not> truthy size'
             then (Inl (ExecutionError
                          ''Attempting to create file for new fileio backstore, need a size''), w)
             else then_do (convert_human_to_bytes env s, w) (\<lambda>bytes w.
                  then_do (create_file env file_or_dev bytes sparse w) (\<lambda>_ w.
                    (Inr None, w))))))))))"

subsection \<open>A session to run the operations in\<close>

definition root_session :: env where
  "root_session =
     \<lparr>root_err = None, hba_err = (\<lambda>_ _. None), so_err = (\<lambda>_ _ _. None),
      write_err = (\<lambda>_. False), convert_human_to_bytes = (\<lambda>_. Inr 4096),
      child_order = (\<lambda>_. 0)\<rparr>"

definition empty_world :: world where
  "empty_world =
     \<lparr>rts = \<lparr>backstores = [], storage_objects = []\<rparr>, fs = Map.empty,
      children = (\<lambda>_. []), shell_log = []\<rparr>"

text \<open>A tree with three backends of one kind, and one of another kind.\<close>

definition three_backstores :: "plugin \<Rightarrow> world" where
  "three_backstores k =
     empty_world\<lparr>rts := \<lparr>backstores = [\<lparr>bs_plugin = k, bs_index = 0\<rparr>, \<lparr>bs_plugin = pscsi, bs_index = 7\<rparr>,
                                         \<lparr>bs_plugin = k, bs_index = 1\<rparr>, \<lparr>bs_plugin = k, bs_index = 2\<rparr>],
                           storage_objects = []\<rparr>\<rparr>"

text \<open>Every storage object of the tree lives on a backstore of the tree.\<close>

definition live_backstores :: "rtsroot \<Rightarrow> bool" where
  "live_backstores root =
     (\<forall>so \<in> set (storage_objects root). so_backstore so \<in> set (backstores root))"

text \<open>
  A tree left by the legacy UI: two fileio storage objects named alike on two backstores,
  one of which is shared with a third object, an iblock object of the same name, and two
  ram disks, one of them named like the third fileio object.
\<close>

definition disk_a :: storage_object where
  "disk_a = \<lparr>so_backstore = \<lparr>bs_plugin = fileio, bs_index = 0\<rparr>, so_name = ''disk'',
             so_args = FileIOArgs ''/dev/sdb'' None True True\<rparr>"

definition disk_b :: storage_object where
  "disk_b = \<lparr>so_backstore = \<lparr>bs_plugin = fileio, bs_index = 1\<rparr>, so_name = ''disk'',
             so_args = FileIOArgs ''/dev/sdc'' None True True\<rparr>"

definition other_b :: storage_object where
  "other_b = \<lparr>so_backstore = \<lparr>bs_plugin = fileio, bs_index = 1\<rparr>, so_name = ''other'',
              so_args = FileIOArgs ''/dev/sdd'' None True True\<rparr>"

definition disk_c :: storage_object where
  "disk_c = \<lparr>so_backstore = \<lparr>bs_plugin = iblock, bs_index = 0\<rparr>, so_name = ''disk'',
             so_args = IBlockArgs ''/dev/sde'' True\<rparr>"

definition ram_a :: storage_object where
  "ram_a = \<lparr>so_backstore = \<lparr>bs_plugin = rd_mcp, bs_index = 0\<rparr>, so_name = ''ram0'',
            so_args = RDMCPArgs ''1M'' True\<rparr>"

definition ram_b :: storage_object where
  "ram_b = \<lparr>so_backstore = \<lparr>bs_plugin = rd_mcp, bs_index = 1\<rparr>, so_name = ''other'',
            so_args = RDMCPArgs ''1M'' True\<rparr>"

definition legacy_root :: rtsroot where
  "legacy_root =
     \<lparr>backstores = [\<lparr>bs_plugin = fileio, bs_index = 0\<rparr>, \<lparr>bs_plugin = fileio, bs_index = 1\<rparr>,
                     \<lparr>bs_plugin = iblock, bs_index = 0\<rparr>, \<lparr>bs_plugin = rd_mcp, bs_index = 0\<rparr>,
                     \<lparr>bs_plugin = rd_mcp, bs_index = 1\<rparr>],
      storage_objects = [disk_a, disk_b, other_b, disk_c, ram_a, ram_b]\<rparr>"

definition legacy_world :: world where
  "legacy_world =
     snd (root_refresh
            \<lparr>rts = legacy_root, fs = Map.empty, children = (\<lambda>_. []), shell_log = []\<rparr>)"

text \<open>
  Two iblock storage objects named alike on two backstores, in a refreshed tree, and the
  object a creation adds to it; three fileio objects where the stored name of one is the
  display name of another, in the two orders the driver may list them.
\<close>

definition twin_a :: storage_object where
  "twin_a = \<lparr>so_backstore = \<lparr>bs_plugin = iblock, bs_index = 0\<rparr>, so_name = ''disk'',
             so_args = IBlockArgs ''/dev/sdb'' True\<rparr>"

definition twin_b :: storage_object where
  "twin_b = \<lparr>so_backstore = \<lparr>bs_plugin = iblock, bs_index = 1\<rparr>, so_name = ''disk'',
             so_args = IBlockArgs ''/dev/sdc'' True\<rparr>"

definition twin_world :: world where
  "twin_world =
     snd (root_refresh
            \<lparr>rts = \<lparr>backstores = [\<lparr>bs_plugin = iblock, bs_index = 0\<rparr>,
                                   \<lparr>bs_plugin = iblock, bs_index = 1\<rparr>],
                     storage_objects = [twin_a, twin_b]\<rparr>,
               fs = Map.empty, children = (\<lambda>_. []), shell_log = []\<rparr>)"

definition twin_c :: storage_object where
  "twin_c = \<lparr>so_backstore = \<lparr>bs_plugin = iblock, bs_index = 2\<rparr>, so_name = ''disk'',
             so_args = IBlockArgs ''/dev/sdf'' True\<rparr>"

definition disk_0_c :: storage_object where
  "disk_0_c = \<lparr>so_backstore = \<lparr>bs_plugin = fileio, bs_index = 2\<rparr>, so_name = ''disk_0'',
               so_args = FileIOArgs ''/dev/sdf'' None True True\<rparr>"

definition ambiguous_world :: world where
  "ambiguous_world =
     snd (root_refresh
            \<lparr>rts = \<lparr>backstores = [\<lparr>bs_plugin = fileio, bs_index = 2\<rparr>,
                                   \<lparr>bs_plugin = fileio, bs_index = 0\<rparr>,
                                   \<lparr>bs_plugin = fileio, bs_index = 1\<rparr>],
                     storage_objects = [disk_0_c, disk_a, disk_b]\<rparr>,
               fs = Map.empty, children = (\<lambda>_. []), shell_log = []\<rparr>)"

definition clash_world :: world where
  "clash_world =
     \<lparr>rts = \<lparr>backstores = [\<lparr>bs_plugin = fileio, bs_index = 0\<rparr>, \<lparr>bs_plugin = fileio, bs_index = 1\<rparr>,
                            \<lparr>bs_plugin = fileio, bs_index = 2\<rparr>],
              storage_objects =
                [disk_a, disk_b, disk_0_c]\<rparr>,
      fs = Map.empty, children = (\<lambda>_. []), shell_log = []\<rparr>"

text \<open>The node a refresh shows for a storage object.\<close>

definition shown :: "rtsroot \<Rightarrow> storage_object \<Rightarrow> ui_so" where
  "shown root so = \<lparr>node_name = dedup_so_name root so, rtsnode = so\<rparr>"

text \<open>A driver that refuses every storage object, a block device, and an existing file.\<close>

definition busy_session :: env where
  "busy_session = root_session\<lparr>so_err := (\<lambda>_ _ _. Some (RTSLibError ''device busy''))\<rparr>"

definition sdb_world :: world where
  "sdb_world = empty_world\<lparr>fs := [''/dev/sdb'' \<mapsto> BlockDevice 0]\<rparr>"

definition image_world :: world where
  "image_world = empty_world\<lparr>fs := [''/tmp/disk.img'' \<mapsto> RegularFile ''abcd'']\<rparr>"

section \<open>Index allocation\<close>

lemma for_index_Unbound:
  "(\<And>j. index \<le> j \<Longrightarrow> j < stop \<Longrightarrow> j \<in> set indexes) \<Longrightarrow> for_index index stop indexes = Unbound"
proof (induction index stop indexes rule: for_index.induct)
  case (1 index stop indexes)
  show ?case
  proof (cases "index < stop")
    case True
    then have mem: "index \<in> set indexes" using "1.prems" by simp
    have "for_index (Suc index) stop indexes = Unbound"
    proof (rule "1.IH")
      show "index < stop" by (rule True)
      show "\<not> index \<notin> set indexes" using mem by simp
      fix j assume "Suc index \<le> j" "j < stop"
      then show "j \<in> set indexes" using "1.prems" [of j] by simp
    qed
    then show ?thesis using True mem by (simp add: for_index.simps [of index])
  next
    case False
    then show ?thesis by (simp add: for_index.simps [of index])
  qed
qed

lemma for_index_Bound:
  "index \<le> j \<Longrightarrow> j < stop \<Longrightarrow> j \<notin> set indexes
   \<Longrightarrow> (\<And>m. index \<le> m \<Longrightarrow> m < j \<Longrightarrow> m \<in> set indexes)
   \<Longrightarrow> for_index index stop indexes = Bound (Some j)"
proof (induction index stop indexes rule: for_index.induct)
  case (1 index stop indexes)
  show ?case
  proof (cases "index = j")
    case True
    then show ?thesis using "1.prems"(2,3) by (simp add: for_index.simps [of j])
  next
    case False
    then have lt: "index < j" using "1.prems"(1) by simp
    then have mem: "index \<in> set indexes" using "1.prems"(4) [of index] by simp
    have istop: "index < stop" using lt "1.prems"(2) by simp
    have "for_index (Suc index) stop indexes = Bound (Some j)"
    proof (rule "1.IH")
      show "index < stop" by (rule istop)
      show "\<not> index \<notin> set indexes" using mem by simp
      show "Suc index \<le> j" using lt by simp
      show "j < stop" by (rule "1.prems"(2))
      show "j \<notin> set indexes" by (rule "1.prems"(3))
      fix m assume "Suc index \<le> m" "m < j"
      then show "m \<in> set indexes" using "1.prems"(4) [of m] by simp
    qed
    then show ?thesis using istop mem by (simp add: for_index.simps [of index])
  qed
qed

lemma hba_indexes_mem:
  "(i \<in> set (hba_indexes root k)) = (\<lparr>bs_plugin = k, bs_index = i\<rparr> \<in> set (backstores root))"
proof
  assume "i \<in> set (hba_indexes root k)"
  then obtain b where b: "b \<in> set (backstores root)" "bs_plugin b = k" "bs_index b = i"
    by (auto simp: hba_indexes_def)
  then have "b = \<lparr>bs_plugin = k, bs_index = i\<rparr>" by simp
  then show "\<lparr>bs_plugin = k, bs_index = i\<rparr> \<in> set (backstores root)" using b(1) by simp
next
  assume "\<lparr>bs_plugin = k, bs_index = i\<rparr> \<in> set (backstores root)"
  then have "bs_index \<lparr>bs_plugin = k, bs_index = i\<rparr> \<in> set (hba_indexes root k)"
    unfolding hba_indexes_def set_map by (intro imageI) simp
  then show "i \<in> set (hba_indexes root k)" by simp
qed

lemma next_hba_index_least:
  assumes "\<exists>i<1048576. \<lparr>bs_plugin = k, bs_index = i\<rparr> \<notin> set (backstores root)"
  shows "next_hba_index k root =
           Inr (LEAST i. \<lparr>bs_plugin = k, bs_index = i\<rparr> \<notin> set (backstores root))"
proof -
  define P where "P = (\<lambda>i. \<lparr>bs_plugin = k, bs_index = i\<rparr> \<notin> set (backstores root))"
  define j where "j = (LEAST i. P i)"
  from assms obtain i where i: "i < 1048576" "P i" unfolding P_def by blast
  have Pj: "P j" unfolding j_def using i(2) by (rule LeastI)
  have jle: "j \<le> i" unfolding j_def using i(2) by (rule Least_le)
  have below: "\<not> P m" if "m < j" for m using that unfolding j_def by (rule not_less_Least)
  have "for_index 0 1048576 (hba_indexes root k) = Bound (Some j)"
  proof (rule for_index_Bound)
    show "0 \<le> j" by simp
    show "j < 1048576" using jle i(1) by (rule order_le_less_trans)
    show "j \<notin> set (hba_indexes root k)" using Pj unfolding P_def hba_indexes_mem .
    show "m \<in> set (hba_indexes root k)" if "0 \<le> m" "m < j" for m
      using below [OF that(2)] unfolding P_def hba_indexes_mem by simp
  qed
  then have "next_hba_index k root = Inr j" by (simp add: next_hba_index_def)
  then show ?thesis unfolding j_def P_def .
qed

lemma next_hba_index_exhausted:
  assumes "\<And>i. i < 1048576 \<Longrightarrow> \<lparr>bs_plugin = k, bs_index = i\<rparr> \<in> set (backstores root)"
  shows "next_hba_index k root =
           Inl (UnboundLocalError ''local variable 'backstore_index' referenced before assignment'')"
proof -
  have "for_index 0 1048576 (hba_indexes root k) = Unbound"
  proof (rule for_index_Unbound)
    fix j :: nat assume "j < 1048576"
    then show "j \<in> set (hba_indexes root k)" unfolding hba_indexes_mem by (rule assms)
  qed
  then show ?thesis by (simp add: next_hba_index_def)
qed

lemma for_index_sound:
  "for_index index stop indexes = Bound (Some j) \<Longrightarrow> j \<notin> set indexes \<and> index \<le> j \<and> j < stop"
proof (induction index stop indexes rule: for_index.induct)
  case (1 index stop indexes)
  show ?case
  proof (cases "index < stop \<and> index \<in> set indexes")
    case True
    then have "for_index (Suc index) stop indexes = Bound (Some j)"
      using "1.prems" by (simp add: for_index.simps [of index])
    then have "j \<notin> set indexes \<and> Suc index \<le> j \<and> j < stop"
      using "1.IH" True by simp
    then show ?thesis by simp
  next
    case False
    then show ?thesis using "1.prems"
      by (auto simp: for_index.simps [of index] split: if_splits)
  qed
qed

lemma next_hba_index_unused:
  assumes "next_hba_index k root = Inr i"
  shows "\<lparr>bs_plugin = k, bs_index = i\<rparr> \<notin> set (backstores root)"
proof -
  have "for_index 0 1048576 (hba_indexes root k) = Bound (Some i)"
    using assms by (auto simp: next_hba_index_def split: local_var.splits option.splits)
  then have "i \<notin> set (hba_indexes root k)" by (simp add: for_index_sound)
  then show ?thesis by (simp add: hba_indexes_mem)
qed

lemma next_hba_index_other:
  assumes "next_hba_index k (root\<lparr>backstores := backstores root @ [\<lparr>bs_plugin = k, bs_index = i\<rparr>]\<rparr>) = Inr j"
  shows "j \<noteq> i"
  using next_hba_index_unused [OF assms] by auto

text \<open>
  C4. For every backend kind, the index allocator returns the smallest non-negative integer
  that is not the index of a live backend of that kind; the scan covers the indices below
  1,048,576, so the allocator returns whenever one of them is free. In particular, when the
  live backends of kind \<open>k\<close> have the indices 0, 1 and 2 and the one at index 1 is
  deleted, the next index allocated for \<open>k\<close> is 1.
\<close>

theorem next_hba_index_smallest_unused:
  "((\<exists>i<1048576. \<lparr>bs_plugin = k, bs_index = i\<rparr> \<notin> set (backstores root)) \<longrightarrow>
      next_hba_index k root =
        Inr (LEAST i. \<lparr>bs_plugin = k, bs_index = i\<rparr> \<notin> set (backstores root))) \<and>
   ({i. \<lparr>bs_plugin = k, bs_index = i\<rparr> \<in> set (backstores (rts w))} = {0, 1, 2} \<longrightarrow>
      next_hba_index k (rts (backstore_delete \<lparr>bs_plugin = k, bs_index = 1\<rparr> w)) = Inr 1)"
proof (intro conjI impI)
  assume "\<exists>i<1048576. \<lparr>bs_plugin = k, bs_index = i\<rparr> \<notin> set (backstores root)"
  then show "next_hba_index k root =
        Inr (LEAST i. \<lparr>bs_plugin = k, bs_index = i\<rparr> \<notin> set (backstores root))"
    by (rule next_hba_index_least)
next
  assume live: "{i. \<lparr>bs_plugin = k, bs_index = i\<rparr> \<in> set (backstores (rts w))} = {0, 1, 2}"
  define root' where "root' = rts (backstore_delete \<lparr>bs_plugin = k, bs_index = 1\<rparr> w)"
  have mem: "(\<lparr>bs_plugin = k, bs_index = i\<rparr> \<in> set (backstores root')) = (i = 0 \<or> i = 2)" for i
  proof -
    have "(\<lparr>bs_plugin = k, bs_index = i\<rparr> \<in> set (backstores root')) =
            (i \<noteq> 1 \<and> i \<in> {i. \<lparr>bs_plugin = k, bs_index = i\<rparr> \<in> set (backstores (rts w))})"
      by (auto simp: root'_def backstore_delete_def)
    then show ?thesis unfolding live by auto
  qed
  have free: "\<exists>i<1048576. \<lparr>bs_plugin = k, bs_index = i\<rparr> \<notin> set (backstores root')"
  proof (intro exI conjI)
    show "(1::nat) < 1048576" by simp
    show "\<lparr>bs_plugin = k, bs_index = 1\<rparr> \<notin> set (backstores root')" by (simp add: mem)
  qed
  have "(LEAST i. \<lparr>bs_plugin = k, bs_index = i\<rparr> \<notin> set (backstores root')) = 1"
  proof (rule Least_equality)
    show "\<lparr>bs_plugin = k, bs_index = 1\<rparr> \<notin> set (backstores root')" by (simp add: mem)
    fix y assume "\<lparr>bs_plugin = k, bs_index = y\<rparr> \<notin> set (backstores root')"
    then have "y \<noteq> 0" by (auto simp: mem)
    then show "1 \<le> y" by simp
  qed
  then have "next_hba_index k root' = Inr 1"
    using next_hba_index_least [OF free] by simp
  then show "next_hba_index k (rts (backstore_delete \<lparr>bs_plugin = k, bs_index = 1\<rparr> w)) = Inr 1"
    unfolding root'_def .
qed

theorem next_hba_index_smallest_unused_witness:
  "(\<exists>i<1048576. \<lparr>bs_plugin = iblock, bs_index = i\<rparr> \<notin> set (backstores (rts (three_backstores iblock)))) \<and>
   next_hba_index iblock (rts (three_backstores iblock)) = Inr 3 \<and>
   {i. \<lparr>bs_plugin = iblock, bs_index = i\<rparr> \<in> set (backstores (rts (three_backstores iblock)))} = {0, 1, 2} \<and>
   next_hba_index iblock
     (rts (backstore_delete \<lparr>bs_plugin = iblock, bs_index = 1\<rparr> (three_backstores iblock))) = Inr 1"
proof -
  let ?root = "rts (three_backstores iblock)"
  have mem: "(\<lparr>bs_plugin = iblock, bs_index = i\<rparr> \<in> set (backstores ?root)) = (i = 0 \<or> i = 1 \<or> i = 2)" for i
    by (auto simp: three_backstores_def empty_world_def)
  have free: "\<exists>i<1048576. \<lparr>bs_plugin = iblock, bs_index = i\<rparr> \<notin> set (backstores ?root)"
  proof (intro exI conjI)
    show "(3::nat) < 1048576" by simp
    show "\<lparr>bs_plugin = iblock, bs_index = 3\<rparr> \<notin> set (backstores ?root)" by (simp add: mem)
  qed
  have live: "{i. \<lparr>bs_plugin = iblock, bs_index = i\<rparr> \<in> set (backstores ?root)} = {0, 1, 2}"
    by (auto simp: mem)
  have least: "(LEAST i. \<lparr>bs_plugin = iblock, bs_index = i\<rparr> \<notin> set (backstores ?root)) = 3"
  proof (rule Least_equality)
    show "\<lparr>bs_plugin = iblock, bs_index = 3\<rparr> \<notin> set (backstores ?root)" by (simp add: mem)
    fix y assume "\<lparr>bs_plugin = iblock, bs_index = y\<rparr> \<notin> set (backstores ?root)"
    then have "y \<noteq> 0 \<and> y \<noteq> 1 \<and> y \<noteq> 2" by (simp add: mem)
    then show "3 \<le> y" by arith
  qed
  note inst = next_hba_index_smallest_unused [of iblock ?root "three_backstores iblock"]
  from inst free have "next_hba_index iblock ?root = Inr 3" unfolding least by blast
  moreover from inst live have "next_hba_index iblock
     (rts (backstore_delete \<lparr>bs_plugin = iblock, bs_index = 1\<rparr> (three_backstores iblock))) = Inr 1"
    by blast
  ultimately show ?thesis using free live by blast
qed

text \<open>
  C5. When every index from 0 up to 1,048,576 (exclusive) is used by a live backend of the
  kind, the claim has the allocation fail with the execution error "Cannot find an
  available backstore index.". The loop then ends without binding
  \<^verbatim>\<open>backstore_index\<close>, and the test \<^verbatim>\<open>backstore_index is None\<close> that guards the
  execution error reads the unbound variable: the call raises \<^verbatim>\<open>UnboundLocalError\<close>
  instead, for every kind.
\<close>

theorem next_hba_index_exhausted_unbound:
  "\<forall>k. next_hba_index k
          \<lparr>backstores = map (\<lambda>i. \<lparr>bs_plugin = k, bs_index = i\<rparr>) [0..<1048576],
             storage_objects = []\<rparr> =
        Inl (UnboundLocalError ''local variable 'backstore_index' referenced before assignment'')"
proof
  fix k
  show "next_hba_index k
          \<lparr>backstores = map (\<lambda>i. \<lparr>bs_plugin = k, bs_index = i\<rparr>) [0..<1048576],
             storage_objects = []\<rparr> =
        Inl (UnboundLocalError ''local variable 'backstore_index' referenced before assignment'')"
  proof (rule next_hba_index_exhausted)
    fix i :: nat assume "i < 1048576"
    then have "i \<in> {0..<1048576}" by simp
    then have "\<lparr>bs_plugin = k, bs_index = i\<rparr>
                 \<in> (\<lambda>i. \<lparr>bs_plugin = k, bs_index = i\<rparr>) ` {0..<1048576}" by (rule imageI)
    then show "\<lparr>bs_plugin = k, bs_index = i\<rparr>
            \<in> set (backstores \<lparr>backstores = map (\<lambda>i. \<lparr>bs_plugin = k, bs_index = i\<rparr>) [0..<1048576],
                                  storage_objects = []\<rparr>)"
      by (simp only: rtsroot.simps set_map set_upt)
  qed
qed

section \<open>The tree of nodes\<close>

text \<open>
  What a refresh does to the state: it touches the children of its node only, and when it
  completes the node has one child for every storage object of the kind, under the
  deduplicated name. The only error it raises is the registration of a node under a name
  that a sibling shows already.
\<close>

lemma register_and_rename:
  assumes "so_name so \<notin> set (map node_name (children w k))"
  shows "UIStorageObject so k w =
           (Inr \<lparr>node_name = so_name so, rtsnode = so\<rparr>,
            w\<lparr>children := (children w)(k := children w k @ [\<lparr>node_name = so_name so, rtsnode = so\<rparr>])\<rparr>)"
    and "set_name k \<lparr>node_name = so_name so, rtsnode = so\<rparr> d
           (w\<lparr>children := (children w)(k := children w k @ [\<lparr>node_name = so_name so, rtsnode = so\<rparr>])\<rparr>) =
         w\<lparr>children := (children w)(k := children w k @ [\<lparr>node_name = d, rtsnode = so\<rparr>])\<rparr>"
proof -
  show "UIStorageObject so k w =
           (Inr \<lparr>node_name = so_name so, rtsnode = so\<rparr>,
            w\<lparr>children := (children w)(k := children w k @ [\<lparr>node_name = so_name so, rtsnode = so\<rparr>])\<rparr>)"
    using assms by (simp add: UIStorageObject_def Let_def)
  have "map (\<lambda>child. if child = \<lparr>node_name = so_name so, rtsnode = so\<rparr>
                       then child\<lparr>node_name := d\<rparr> else child) (children w k) = children w k"
  proof (rule map_idI)
    fix child assume "child \<in> set (children w k)"
    then have "node_name child \<in> node_name ` set (children w k)" by (rule imageI)
    then have "node_name child \<noteq> so_name so" using assms by (metis set_map)
    then have "child \<noteq> \<lparr>node_name = so_name so, rtsnode = so\<rparr>" by auto
    then show "(if child = \<lparr>node_name = so_name so, rtsnode = so\<rparr>
                then child\<lparr>node_name := d\<rparr> else child) = child" by simp
  qed
  then show "set_name k \<lparr>node_name = so_name so, rtsnode = so\<rparr> d
           (w\<lparr>children := (children w)(k := children w k @ [\<lparr>node_name = so_name so, rtsnode = so\<rparr>])\<rparr>) =
         w\<lparr>children := (children w)(k := children w k @ [\<lparr>node_name = d, rtsnode = so\<rparr>])\<rparr>"
    by (simp add: set_name_def)
qed

lemma register_clash:
  assumes "so_name so \<in> set (map node_name (children w k))"
  shows "UIStorageObject so k w =
           (Inl (ValueError (''Name '' @ so_name so @ '' already used by a sibling.'')), w)"
  using assms by (simp add: UIStorageObject_def Let_def)

lemma refresh_loop_frame:
  "rts (snd (refresh_loop k sos w)) = rts w \<and> fs (snd (refresh_loop k sos w)) = fs w \<and>
   shell_log (snd (refresh_loop k sos w)) = shell_log w \<and>
   (\<forall>k'. k' \<noteq> k \<longrightarrow> children (snd (refresh_loop k sos w)) k' = children w k')"
proof (induction sos arbitrary: w)
  case Nil
  show ?case by simp
next
  case (Cons so sos)
  show ?case
  proof (cases "bs_plugin (so_backstore so) = k")
    case False
    then show ?thesis using Cons.IH [of w] by simp
  next
    case True
    show ?thesis
    proof (cases "so_name so \<in> set (map node_name (children w k))")
      case True
      then show ?thesis using \<open>bs_plugin (so_backstore so) = k\<close>
        by (simp add: register_clash)
    next
      case False
      let ?w = "w\<lparr>children := (children w)(k := children w k @
                   [\<lparr>node_name = dedup_so_name (rts w) so, rtsnode = so\<rparr>])\<rparr>"
      have "refresh_loop k (so # sos) w = refresh_loop k sos ?w"
        using True by (simp add: register_and_rename [OF False])
      then show ?thesis using Cons.IH [of ?w] by simp
    qed
  qed
qed

lemma refresh_loop_children:
  "refresh_loop k sos w = (Inr (), w') \<Longrightarrow>
   children w' k = children w k @
     map (shown (rts w)) (filter (\<lambda>s. bs_plugin (so_backstore s) = k) sos)"
proof (induction sos arbitrary: w)
  case Nil
  then show ?case by simp
next
  case (Cons so sos)
  show ?case
  proof (cases "bs_plugin (so_backstore so) = k")
    case False
    then show ?thesis using Cons.IH [of w] Cons.prems by simp
  next
    case True
    show ?thesis
    proof (cases "so_name so \<in> set (map node_name (children w k))")
      case clash: True
      then show ?thesis using True Cons.prems by (simp add: register_clash)
    next
      case False
      let ?w = "w\<lparr>children := (children w)(k := children w k @
                   [\<lparr>node_name = dedup_so_name (rts w) so, rtsnode = so\<rparr>])\<rparr>"
      have "refresh_loop k (so # sos) w = refresh_loop k sos ?w"
        using True by (simp add: register_and_rename [OF False])
      then have "refresh_loop k sos ?w = (Inr (), w')" using Cons.prems by simp
      then have "children w' k = children ?w k @
          map (shown (rts ?w)) (filter (\<lambda>s. bs_plugin (so_backstore s) = k) sos)"
        by (rule Cons.IH)
      then show ?thesis using True by (simp add: shown_def)
    qed
  qed
qed

lemma refresh_frame:
  "rts (snd (refresh k w)) = rts w \<and> fs (snd (refresh k w)) = fs w \<and>
   shell_log (snd (refresh k w)) = shell_log w \<and>
   (\<forall>k'. k' \<noteq> k \<longrightarrow> children (snd (refresh k w)) k' = children w k')"
  using refresh_loop_frame [of k "storage_objects (rts w)" "w\<lparr>children := (children w)(k := [])\<rparr>"]
  by (simp add: refresh_def Let_def)

lemma refresh_children:
  assumes "fst (refresh k w) = Inr ()"
  shows "children (snd (refresh k w)) k =
           map (shown (rts w)) (filter (\<lambda>s. bs_plugin (so_backstore s) = k) (storage_objects (rts w)))"
proof -
  let ?w = "w\<lparr>children := (children w)(k := [])\<rparr>"
  have "refresh_loop k (storage_objects (rts w)) ?w = (Inr (), snd (refresh k w))"
    using assms by (simp add: refresh_def Let_def prod_eq_iff)
  from refresh_loop_children [OF this] show ?thesis by simp
qed

lemma refresh_step:
  assumes "refresh k w = (r, w')"
  shows "rts w' = rts w" and "fs w' = fs w" and "shell_log w' = shell_log w"
    and "k' \<noteq> k \<Longrightarrow> children w' k' = children w k'"
    and "r = Inr u \<Longrightarrow> children w' k =
           map (shown (rts w)) (filter (\<lambda>s. bs_plugin (so_backstore s) = k) (storage_objects (rts w)))"
  using refresh_frame [of k w] refresh_children [of k w] assms by auto

lemma root_refresh_frame:
  "rts (snd (root_refresh w)) = rts w \<and> fs (snd (root_refresh w)) = fs w \<and>
   shell_log (snd (root_refresh w)) = shell_log w"
proof -
  let ?w0 = "w\<lparr>children := (\<lambda>_. [])\<rparr>"
  obtain r1 w1 where s1: "refresh pscsi ?w0 = (r1, w1)" by (cases "refresh pscsi ?w0")
  obtain r2 w2 where s2: "refresh rd_dr w1 = (r2, w2)" by (cases "refresh rd_dr w1")
  obtain r3 w3 where s3: "refresh rd_mcp w2 = (r3, w3)" by (cases "refresh rd_mcp w2")
  obtain r4 w4 where s4: "refresh fileio w3 = (r4, w4)" by (cases "refresh fileio w3")
  obtain r5 w5 where s5: "refresh iblock w4 = (r5, w5)" by (cases "refresh iblock w4")
  have "snd (root_refresh w) \<in> {w1, w2, w3, w4, w5}"
    using s1 s2 s3 s4 s5
    by (auto simp: root_refresh_def then_do_def Let_def split: sum.splits)
  moreover have "rts w1 = rts w \<and> fs w1 = fs w \<and> shell_log w1 = shell_log w"
    using refresh_step(1,2,3) [OF s1] by simp
  moreover have "rts w2 = rts w1 \<and> fs w2 = fs w1 \<and> shell_log w2 = shell_log w1"
    using refresh_step(1,2,3) [OF s2] by simp
  moreover have "rts w3 = rts w2 \<and> fs w3 = fs w2 \<and> shell_log w3 = shell_log w2"
    using refresh_step(1,2,3) [OF s3] by simp
  moreover have "rts w4 = rts w3 \<and> fs w4 = fs w3 \<and> shell_log w4 = shell_log w3"
    using refresh_step(1,2,3) [OF s4] by simp
  moreover have "rts w5 = rts w4 \<and> fs w5 = fs w4 \<and> shell_log w5 = shell_log w4"
    using refresh_step(1,2,3) [OF s5] by simp
  ultimately show ?thesis by auto
qed

lemma root_refresh_children:
  assumes "fst (root_refresh w) = Inr ()"
  shows "children (snd (root_refresh w)) k =
           map (shown (rts w)) (filter (\<lambda>s. bs_plugin (so_backstore s) = k) (storage_objects (rts w)))"
proof -
  let ?w0 = "w\<lparr>children := (\<lambda>_. [])\<rparr>"
  obtain r1 w1 where s1: "refresh pscsi ?w0 = (r1, w1)" by (cases "refresh pscsi ?w0")
  obtain r2 w2 where s2: "refresh rd_dr w1 = (r2, w2)" by (cases "refresh rd_dr w1")
  obtain r3 w3 where s3: "refresh rd_mcp w2 = (r3, w3)" by (cases "refresh rd_mcp w2")
  obtain r4 w4 where s4: "refresh fileio w3 = (r4, w4)" by (cases "refresh fileio w3")
  obtain r5 w5 where s5: "refresh iblock w4 = (r5, w5)" by (cases "refresh iblock w4")
  have ok: "r1 = Inr ()" "r2 = Inr ()" "r3 = Inr ()" "r4 = Inr ()" "r5 = Inr ()"
    and res: "snd (root_refresh w) = w5"
    using assms s1 s2 s3 s4 s5
    by (auto simp: root_refresh_def then_do_def Let_def split: sum.splits)
  have roots: "rts w1 = rts w" "rts w2 = rts w" "rts w3 = rts w" "rts w4 = rts w"
    using refresh_step(1) [OF s1] refresh_step(1) [OF s2] refresh_step(1) [OF s3]
      refresh_step(1) [OF s4] by simp_all
  show ?thesis
  proof (cases k)
    case pscsi
    then show ?thesis unfolding res
      using refresh_step(5) [OF s1 ok(1)] refresh_step(4) [OF s2, of pscsi]
        refresh_step(4) [OF s3, of pscsi] refresh_step(4) [OF s4, of pscsi]
        refresh_step(4) [OF s5, of pscsi] by simp
  next
    case rd_dr
    then show ?thesis unfolding res
      using refresh_step(5) [OF s2 ok(2)] roots refresh_step(4) [OF s3, of rd_dr]
        refresh_step(4) [OF s4, of rd_dr] refresh_step(4) [OF s5, of rd_dr] by simp
  next
    case rd_mcp
    then show ?thesis unfolding res
      using refresh_step(5) [OF s3 ok(3)] roots refresh_step(4) [OF s4, of rd_mcp]
        refresh_step(4) [OF s5, of rd_mcp] by simp
  next
    case fileio
    then show ?thesis unfolding res
      using refresh_step(5) [OF s4 ok(4)] roots refresh_step(4) [OF s5, of fileio] by simp
  next
    case iblock
    then show ?thesis unfolding res
      using refresh_step(5) [OF s5 ok(5)] roots by simp
  qed
qed

lemma refresh_loop_outcome:
  "fst (refresh_loop k sos w) = Inr () \<or>
   (\<exists>n. fst (refresh_loop k sos w) = Inl (ValueError (''Name '' @ n @ '' already used by a sibling.'')))"
proof (induction sos arbitrary: w)
  case Nil
  show ?case by simp
next
  case (Cons so sos)
  show ?case
  proof (cases "bs_plugin (so_backstore so) = k")
    case False
    then show ?thesis using Cons.IH [of w] by simp
  next
    case True
    show ?thesis
    proof (cases "so_name so \<in> set (map node_name (children w k))")
      case clash: True
      then show ?thesis using True by (simp add: register_clash)
    next
      case False
      let ?w = "w\<lparr>children := (children w)(k := children w k @
                   [\<lparr>node_name = dedup_so_name (rts w) so, rtsnode = so\<rparr>])\<rparr>"
      have "refresh_loop k (so # sos) w = refresh_loop k sos ?w"
        using True by (simp add: register_and_rename [OF False])
      then show ?thesis using Cons.IH [of ?w] by simp
    qed
  qed
qed

lemma refresh_outcome:
  "fst (refresh k w) = Inr () \<or>
   (\<exists>n. fst (refresh k w) = Inl (ValueError (''Name '' @ n @ '' already used by a sibling.'')))"
  using refresh_loop_outcome [of k "storage_objects (rts w)" "w\<lparr>children := (children w)(k := [])\<rparr>"]
  by (simp add: refresh_def Let_def)

lemma root_refresh_outcome:
  "fst (root_refresh w) = Inr () \<or>
   (\<exists>n. fst (root_refresh w) = Inl (ValueError (''Name '' @ n @ '' already used by a sibling.'')))"
proof -
  let ?w0 = "w\<lparr>children := (\<lambda>_. [])\<rparr>"
  obtain r1 w1 where s1: "refresh pscsi ?w0 = (r1, w1)" by (cases "refresh pscsi ?w0")
  obtain r2 w2 where s2: "refresh rd_dr w1 = (r2, w2)" by (cases "refresh rd_dr w1")
  obtain r3 w3 where s3: "refresh rd_mcp w2 = (r3, w3)" by (cases "refresh rd_mcp w2")
  obtain r4 w4 where s4: "refresh fileio w3 = (r4, w4)" by (cases "refresh fileio w3")
  obtain r5 w5 where s5: "refresh iblock w4 = (r5, w5)" by (cases "refresh iblock w4")
  have "fst (root_refresh w) \<in> {r1, r2, r3, r4, r5}"
    using s1 s2 s3 s4 s5
    by (auto simp: root_refresh_def then_do_def Let_def split: sum.splits)
  moreover have "r = Inr () \<or>
      (\<exists>n. r = Inl (ValueError (''Name '' @ n @ '' already used by a sibling.'')))"
    if "r \<in> {r1, r2, r3, r4, r5}" for r
    using that refresh_outcome [of pscsi ?w0] refresh_outcome [of rd_dr w1]
      refresh_outcome [of rd_mcp w2] refresh_outcome [of fileio w3] refresh_outcome [of iblock w4]
      s1 s2 s3 s4 s5 by auto
  ultimately show ?thesis by blast
qed

text \<open>The trees and sessions used below, evaluated.\<close>

lemmas legacy_defs =
  legacy_world_def legacy_root_def disk_a_def disk_b_def other_b_def disk_c_def ram_a_def
  ram_b_def

lemmas tree_defs =
  root_refresh_def refresh_def then_do_def UIStorageObject_def set_name_def dedup_so_name_def
  Let_def digit_char_def

lemma legacy_world_tree:
  "rts legacy_world = legacy_root"
  "shell_log legacy_world = []"
  "children legacy_world fileio =
     [\<lparr>node_name = ''disk_0'', rtsnode = disk_a\<rparr>, \<lparr>node_name = ''disk_1'', rtsnode = disk_b\<rparr>,
      \<lparr>node_name = ''other'', rtsnode = other_b\<rparr>]"
  "children legacy_world iblock = [\<lparr>node_name = ''disk'', rtsnode = disk_c\<rparr>]"
  "children legacy_world rd_mcp =
     [\<lparr>node_name = ''ram0'', rtsnode = ram_a\<rparr>, \<lparr>node_name = ''other'', rtsnode = ram_b\<rparr>]"
  by (simp_all add: legacy_defs tree_defs str_nat.simps)

lemma twin_world_tree:
  "rts twin_world =
     \<lparr>backstores = [\<lparr>bs_plugin = iblock, bs_index = 0\<rparr>, \<lparr>bs_plugin = iblock, bs_index = 1\<rparr>],
      storage_objects = [twin_a, twin_b]\<rparr>"
  "fs twin_world = Map.empty"
  "shell_log twin_world = []"
  "children twin_world iblock =
     [\<lparr>node_name = ''disk_0'', rtsnode = twin_a\<rparr>, \<lparr>node_name = ''disk_1'', rtsnode = twin_b\<rparr>]"
  by (simp_all add: twin_world_def twin_a_def twin_b_def tree_defs str_nat.simps)

lemma refresh_name_clash:
  "fst (refresh fileio clash_world) = Inl (ValueError ''Name disk_0 already used by a sibling.'')"
  by (simp add: clash_world_def disk_0_c_def disk_a_def disk_b_def tree_defs str_nat.simps)

lemma for_index_0: "0 \<notin> set indexes \<Longrightarrow> for_index 0 1048576 indexes = Bound (Some 0)"
  by (simp add: for_index.simps [of 0])

lemma for_index_1:
  "0 \<in> set indexes \<Longrightarrow> 1 \<notin> set indexes \<Longrightarrow> for_index 0 1048576 indexes = Bound (Some 1)"
  by (simp add: for_index.simps [of 0] for_index.simps [of "Suc 0"])

lemma for_index_2:
  "0 \<in> set indexes \<Longrightarrow> 1 \<in> set indexes \<Longrightarrow> 2 \<notin> set indexes
   \<Longrightarrow> for_index 0 1048576 indexes = Bound (Some 2)"
  by (simp add: for_index.simps [of 0] for_index.simps [of "Suc 0"]
        for_index.simps [of "Suc (Suc 0)"] numeral_2_eq_2)

lemmas run_defs =
  fileio_ui_command_create_def then_do_def assert_root_def assert_available_so_name_def
  next_hba_index_def hba_indexes_def Backstore_def StorageObject_def backstore_delete_def
  prm_gen_wwn_def prm_buffered_def ui_eval_param_def log_info_def
  UIStorageObject_def new_node_def is_dev_path_def get_block_type_def is_disk_partition_def
  isfile_def exists_path_def getsize_def truthy_def str_opt_def
  root_session_def empty_world_def busy_session_def sdb_world_def image_world_def Let_def

section \<open>Names\<close>

lemma count_list_map_filter:
  "count_list (map f (filter P xs)) y = length (filter (\<lambda>x. P x \<and> f x = y) xs)"
  by (induction xs) auto

text \<open>
  C7 (amended). For every storage object, \<^verbatim>\<open>dedup_so_name\<close> gives the stored name when
  at most one storage object of the same kind has that name, and the stored name followed
  by an underscore and the index of its backend when more than one has. A refresh of a
  backstore node never changes the driver's tree, the stored names with it, and when it
  completes the children of the node are the storage objects of the kind, each under that
  display name.
\<close>

theorem dedup_so_name_display:
  "dedup_so_name root so =
     (if length (filter (\<lambda>s. bs_plugin (so_backstore s) = bs_plugin (so_backstore so)
                             \<and> so_name s = so_name so) (storage_objects root)) \<le> 1
      then so_name so
      else so_name so @ ''_'' @ str_nat (bs_index (so_backstore so))) \<and>
   rts (snd (refresh k w)) = rts w \<and>
   (fst (refresh k w) = Inr () \<longrightarrow>
      set (children (snd (refresh k w)) k) =
        set (map (\<lambda>s. \<lparr>node_name = dedup_so_name (rts w) s, rtsnode = s\<rparr>)
               (filter (\<lambda>s. bs_plugin (so_backstore s) = k) (storage_objects (rts w)))))"
proof (intro conjI impI)
  show "dedup_so_name root so =
     (if length (filter (\<lambda>s. bs_plugin (so_backstore s) = bs_plugin (so_backstore so)
                             \<and> so_name s = so_name so) (storage_objects root)) \<le> 1
      then so_name so
      else so_name so @ ''_'' @ str_nat (bs_index (so_backstore so)))"
    by (simp add: dedup_so_name_def count_list_map_filter not_le [symmetric] del: not_le)
  show "rts (snd (refresh k w)) = rts w" by (simp add: refresh_frame)
next
  assume "fst (refresh k w) = Inr ()"
  then have "children (snd (refresh k w)) k =
      map (shown (rts w)) (filter (\<lambda>s. bs_plugin (so_backstore s) = k) (storage_objects (rts w)))"
    by (rule refresh_children)
  then show "set (children (snd (refresh k w)) k) =
        set (map (\<lambda>s. \<lparr>node_name = dedup_so_name (rts w) s, rtsnode = s\<rparr>)
               (filter (\<lambda>s. bs_plugin (so_backstore s) = k) (storage_objects (rts w))))"
    by (simp add: shown_def [abs_def])
qed

theorem dedup_so_name_display_witness:
  "dedup_so_name legacy_root disk_a = ''disk_0'' \<and>
   dedup_so_name legacy_root disk_b = ''disk_1'' \<and>
   dedup_so_name legacy_root other_b = ''other'' \<and>
   dedup_so_name legacy_root disk_c = ''disk'' \<and>
   rts (snd (refresh fileio legacy_world)) = legacy_root \<and>
   fst (refresh fileio legacy_world) = Inr () \<and>
   set (children (snd (refresh fileio legacy_world)) fileio) =
     {\<lparr>node_name = ''disk_0'', rtsnode = disk_a\<rparr>, \<lparr>node_name = ''disk_1'', rtsnode = disk_b\<rparr>,
      \<lparr>node_name = ''other'', rtsnode = other_b\<rparr>}"
proof -
  have ok: "fst (refresh fileio legacy_world) = Inr ()"
    by (simp add: legacy_defs tree_defs str_nat.simps)
  have names: "dedup_so_name legacy_root disk_a = ''disk_0''"
    "dedup_so_name legacy_root disk_b = ''disk_1''"
    "dedup_so_name legacy_root other_b = ''other''"
    "dedup_so_name legacy_root disk_c = ''disk''"
    using dedup_so_name_display [of legacy_root disk_a fileio legacy_world]
      dedup_so_name_display [of legacy_root disk_b fileio legacy_world]
      dedup_so_name_display [of legacy_root other_b fileio legacy_world]
      dedup_so_name_display [of legacy_root disk_c fileio legacy_world]
    by (simp_all add: legacy_root_def disk_a_def disk_b_def other_b_def disk_c_def ram_a_def
          ram_b_def str_nat.simps digit_char_def)
  have sos: "filter (\<lambda>s. bs_plugin (so_backstore s) = fileio) (storage_objects legacy_root) =
      [disk_a, disk_b, other_b]"
    by (simp add: legacy_root_def disk_a_def disk_b_def other_b_def disk_c_def ram_a_def
          ram_b_def)
  show ?thesis
    using dedup_so_name_display [of legacy_root disk_a fileio legacy_world] ok names
    by (simp add: legacy_world_tree(1) sos)
qed

text \<open>
  C7 as stated gives every storage object the display name of its node. In a refreshed
  tree with two iblock objects stored as \<^verbatim>\<open>disk\<close>, shown as \<^verbatim>\<open>disk_0\<close> and
  \<^verbatim>\<open>disk_1\<close>, the creation of a third object \<^verbatim>\<open>disk\<close> passes the name check, and
  its node shows the bare stored name although three objects of the kind carry it; the
  deduplicated name would be \<^verbatim>\<open>disk_2\<close>.
\<close>

theorem bare_name_after_creation:
  "\<lparr>node_name = ''disk_0'', rtsnode = twin_a\<rparr> \<in> set (children twin_world iblock) \<and>
   \<lparr>node_name = ''disk_1'', rtsnode = twin_b\<rparr> \<in> set (children twin_world iblock) \<and>
   fst (iblock_ui_command_create root_session ''disk'' ''/dev/sdf'' None twin_world) =
     Inr (Some \<lparr>node_name = ''disk'', rtsnode = twin_c\<rparr>) \<and>
   \<lparr>node_name = ''disk'', rtsnode = twin_c\<rparr>
     \<in> set (children (snd (iblock_ui_command_create root_session ''disk'' ''/dev/sdf'' None
                              twin_world)) iblock) \<and>
   storage_objects (rts (snd (iblock_ui_command_create root_session ''disk'' ''/dev/sdf'' None
                                twin_world))) = [twin_a, twin_b, twin_c] \<and>
   so_name twin_a = ''disk'' \<and> so_name twin_b = ''disk'' \<and> so_name twin_c = ''disk'' \<and>
   dedup_so_name (rts (snd (iblock_ui_command_create root_session ''disk'' ''/dev/sdf'' None
                              twin_world))) twin_c = ''disk_2''"
proof -
  let ?run = "iblock_ui_command_create root_session ''disk'' ''/dev/sdf'' None twin_world"
  have run: "?run =
    (Inr (Some \<lparr>node_name = ''disk'', rtsnode = twin_c\<rparr>),
     twin_world\<lparr>rts := \<lparr>backstores = [\<lparr>bs_plugin = iblock, bs_index = 0\<rparr>,
                                        \<lparr>bs_plugin = iblock, bs_index = 1\<rparr>,
                                        \<lparr>bs_plugin = iblock, bs_index = 2\<rparr>],
                          storage_objects = [twin_a, twin_b, twin_c]\<rparr>,
                children := (children twin_world)(iblock := children twin_world iblock @
                   [\<lparr>node_name = ''disk'', rtsnode = twin_c\<rparr>]),
                shell_log := [(Info, ''Generating a wwn serial.''),
                   (Info, ''Created iblock storage object disk using /dev/sdf.'')]\<rparr>)"
    by (simp add: iblock_ui_command_create_def run_defs twin_world_tree twin_c_def for_index_2)
  have "dedup_so_name \<lparr>backstores = [\<lparr>bs_plugin = iblock, bs_index = 0\<rparr>,
                                        \<lparr>bs_plugin = iblock, bs_index = 1\<rparr>,
                                        \<lparr>bs_plugin = iblock, bs_index = 2\<rparr>],
                          storage_objects = [twin_a, twin_b, twin_c]\<rparr> twin_c = ''disk_2''"
    by (simp add: dedup_so_name_def twin_a_def twin_b_def twin_c_def str_nat.simps digit_char_def)
  then show ?thesis
    by (simp add: run twin_world_tree) (simp add: twin_a_def twin_b_def twin_c_def)
qed

lemma distinct_count_list_le_1: "distinct ys \<Longrightarrow> count_list ys y \<le> 1"
  by (induction ys) (auto simp: count_list_0_iff)

lemma dedup_so_name_distinct:
  assumes "distinct (map so_name (filter (\<lambda>s. bs_plugin (so_backstore s) = bs_plugin (so_backstore so))
                       (storage_objects root)))"
  shows "dedup_so_name root so = so_name so"
  using distinct_count_list_le_1 [OF assms, of "so_name so"]
  by (simp add: dedup_so_name_def)

lemma refreshed_names:
  assumes "refresh k w0 = (Inr (), w)"
  shows "set (map node_name (children w k)) =
           dedup_so_name (rts w) ` {so \<in> set (storage_objects (rts w)). bs_plugin (so_backstore so) = k}"
proof -
  have "rts w = rts w0" using refresh_step(1) [OF assms] .
  moreover have "children w k =
      map (shown (rts w0)) (filter (\<lambda>s. bs_plugin (so_backstore s) = k) (storage_objects (rts w0)))"
    using refresh_step(5) [OF assms refl] .
  ultimately show ?thesis by (auto simp: shown_def)
qed

text \<open>
  C8 (amended). The name check raises the name conflict exactly when the proposed name is
  the display name of a sibling, that is the name a child node of the backstore node of
  that kind shows, and returns otherwise. After a refresh of the node that completes, this
  is exactly when a storage object of the same kind has the proposed name as its display
  name, whatever the objects of other kinds are called; where the stored names of the kind
  are distinct, exactly when a storage object of the kind is stored under the name.
\<close>

theorem assert_available_so_name_conflict:
  "((assert_available_so_name k name w =
      Inl (ExecutionError (''Storage object '' @ plugin_name k @ ''/'' @ name @ '' already exist.'')))
     = (\<exists>child \<in> set (children w k). node_name child = name)) \<and>
   ((assert_available_so_name k name w = Inr ())
     = (\<not> (\<exists>child \<in> set (children w k). node_name child = name))) \<and>
   (refresh k w0 = (Inr (), w) \<longrightarrow>
      ((assert_available_so_name k name w = Inr ())
        = (\<not> (\<exists>so \<in> set (storage_objects (rts w)).
                 bs_plugin (so_backstore so) = k \<and> dedup_so_name (rts w) so = name))) \<and>
      (distinct (map so_name (filter (\<lambda>so. bs_plugin (so_backstore so) = k)
                                (storage_objects (rts w)))) \<longrightarrow>
         (assert_available_so_name k name w = Inr ())
           = (\<not> (\<exists>so \<in> set (storage_objects (rts w)).
                    bs_plugin (so_backstore so) = k \<and> so_name so = name))))"
proof (intro conjI impI)
  show "(assert_available_so_name k name w =
      Inl (ExecutionError (''Storage object '' @ plugin_name k @ ''/'' @ name @ '' already exist.'')))
     = (\<exists>child \<in> set (children w k). node_name child = name)"
    by (auto simp: assert_available_so_name_def)
  show "(assert_available_so_name k name w = Inr ())
     = (\<not> (\<exists>child \<in> set (children w k). node_name child = name))"
    by (auto simp: assert_available_so_name_def)
next
  assume tree: "refresh k w0 = (Inr (), w)"
  have avail: "(assert_available_so_name k name w = Inr ()) =
      (name \<notin> set (map node_name (children w k)))"
    by (simp add: assert_available_so_name_def)
  show shown_names: "(assert_available_so_name k name w = Inr ())
        = (\<not> (\<exists>so \<in> set (storage_objects (rts w)).
                 bs_plugin (so_backstore so) = k \<and> dedup_so_name (rts w) so = name))"
    unfolding avail refreshed_names [OF tree] by auto
  assume dist: "distinct (map so_name (filter (\<lambda>so. bs_plugin (so_backstore so) = k)
                                (storage_objects (rts w))))"
  have "dedup_so_name (rts w) so = so_name so" if "bs_plugin (so_backstore so) = k" for so
    using dist that by (intro dedup_so_name_distinct) simp
  then show "(assert_available_so_name k name w = Inr ())
           = (\<not> (\<exists>so \<in> set (storage_objects (rts w)).
                    bs_plugin (so_backstore so) = k \<and> so_name so = name))"
    unfolding shown_names by auto
qed

theorem assert_available_so_name_conflict_witness:
  "refresh fileio legacy_world = (Inr (), snd (refresh fileio legacy_world)) \<and>
   assert_available_so_name fileio ''disk_0'' (snd (refresh fileio legacy_world)) \<noteq> Inr () \<and>
   assert_available_so_name fileio ''ram0'' (snd (refresh fileio legacy_world)) = Inr () \<and>
   refresh rd_mcp legacy_world = (Inr (), snd (refresh rd_mcp legacy_world)) \<and>
   distinct (map so_name (filter (\<lambda>so. bs_plugin (so_backstore so) = rd_mcp)
      (storage_objects (rts (snd (refresh rd_mcp legacy_world)))))) \<and>
   assert_available_so_name rd_mcp ''other'' (snd (refresh rd_mcp legacy_world)) \<noteq> Inr () \<and>
   assert_available_so_name rd_mcp ''disk'' (snd (refresh rd_mcp legacy_world)) = Inr ()"
proof -
  let ?f = "snd (refresh fileio legacy_world)" and ?r = "snd (refresh rd_mcp legacy_world)"
  have f_ok: "refresh fileio legacy_world = (Inr (), ?f)"
    and r_ok: "refresh rd_mcp legacy_world = (Inr (), ?r)"
    by (simp_all add: prod_eq_iff legacy_defs tree_defs str_nat.simps)
  have roots: "rts ?f = legacy_root" "rts ?r = legacy_root"
    by (simp_all add: refresh_frame legacy_world_tree(1))
  have dist: "distinct (map so_name (filter (\<lambda>so. bs_plugin (so_backstore so) = rd_mcp)
      (storage_objects (rts ?r))))"
    unfolding roots by (simp add: legacy_defs)
  have f1: "\<exists>so \<in> set (storage_objects (rts ?f)).
      bs_plugin (so_backstore so) = fileio \<and> dedup_so_name (rts ?f) so = ''disk_0''"
    unfolding roots by (simp add: legacy_defs dedup_so_name_def str_nat.simps digit_char_def)
  have f2: "\<not> (\<exists>so \<in> set (storage_objects (rts ?f)).
      bs_plugin (so_backstore so) = fileio \<and> dedup_so_name (rts ?f) so = ''ram0'')"
    unfolding roots by (simp add: legacy_defs dedup_so_name_def str_nat.simps digit_char_def)
  have r1: "\<exists>so \<in> set (storage_objects (rts ?r)).
      bs_plugin (so_backstore so) = rd_mcp \<and> so_name so = ''other''"
    unfolding roots by (simp add: legacy_defs)
  have r2: "\<not> (\<exists>so \<in> set (storage_objects (rts ?r)).
      bs_plugin (so_backstore so) = rd_mcp \<and> so_name so = ''disk'')"
    unfolding roots by (simp add: legacy_defs)
  have a1: "assert_available_so_name fileio ''disk_0'' ?f \<noteq> Inr ()"
    using assert_available_so_name_conflict [of fileio "''disk_0''" ?f legacy_world] f_ok f1
    by blast
  have a2: "assert_available_so_name fileio ''ram0'' ?f = Inr ()"
    using assert_available_so_name_conflict [of fileio "''ram0''" ?f legacy_world] f_ok f2
    by blast
  have a3: "assert_available_so_name rd_mcp ''other'' ?r \<noteq> Inr ()"
    using assert_available_so_name_conflict [of rd_mcp "''other''" ?r legacy_world] r_ok dist r1
    by blast
  have a4: "assert_available_so_name rd_mcp ''disk'' ?r = Inr ()"
    using assert_available_so_name_conflict [of rd_mcp "''disk''" ?r legacy_world] r_ok dist r2
    by blast
  show ?thesis using f_ok r_ok dist a1 a2 a3 a4 by blast
qed

text \<open>
  C8 as stated compares with the names of the storage objects of the kind. In the legacy
  tree two fileio objects are stored as \<^verbatim>\<open>disk\<close> and the check accepts \<^verbatim>\<open>disk\<close>;
  no object is stored as \<^verbatim>\<open>disk_0\<close> and the check rejects \<^verbatim>\<open>disk_0\<close>.
\<close>

theorem assert_available_so_name_display_names:
  "disk_a \<in> set (storage_objects (rts legacy_world)) \<and>
   disk_b \<in> set (storage_objects (rts legacy_world)) \<and>
   bs_plugin (so_backstore disk_a) = fileio \<and> so_name disk_a = ''disk'' \<and>
   bs_plugin (so_backstore disk_b) = fileio \<and> so_name disk_b = ''disk'' \<and>
   assert_available_so_name fileio ''disk'' legacy_world = Inr () \<and>
   ''disk_0'' \<notin> set (map so_name (storage_objects (rts legacy_world))) \<and>
   assert_available_so_name fileio ''disk_0'' legacy_world =
     Inl (ExecutionError ''Storage object fileio/disk_0 already exist.'')"
  by (simp add: legacy_world_tree assert_available_so_name_def)
     (simp add: legacy_root_def disk_a_def disk_b_def other_b_def disk_c_def ram_a_def ram_b_def)

section \<open>Deletion\<close>

lemma get_child_unique:
  assumes "filter (\<lambda>child. node_name child = name) (children w k) = [child]"
  shows "get_child env k name w = Inr child"
  using assms by (simp add: get_child_def)

lemma get_child_none:
  assumes "\<forall>child \<in> set (children w k). node_name child \<noteq> name"
  shows "get_child env k name w = Inl (ValueError (''No such path '' @ plugin_name k @ ''/'' @ name))"
proof -
  have "filter (\<lambda>child. node_name child = name) (children w k) = []"
    using assms by (simp add: filter_empty_conv)
  then show ?thesis by (simp add: get_child_def)
qed

lemma remaining_storage_objects:
  "(hba_storage_objects hba (rts (storage_object_delete so w)) = []) =
     (\<not> (\<exists>s \<in> set (storage_objects (rts w)). s \<noteq> so \<and> so_backstore s = hba))"
  by (auto simp: hba_storage_objects_def storage_object_delete_def filter_empty_conv)

lemma ui_command_delete_found:
  assumes "root_err env = None"
    and "get_child env k name w = Inr child"
  shows "ui_command_delete env k name w =
           root_refresh (log_info (''Deleted storage object '' @ name @ ''.'')
              (remove_child k child
                (if hba_storage_objects (so_backstore (rtsnode child))
                      (rts (storage_object_delete (rtsnode child) w)) = []
                 then backstore_delete (so_backstore (rtsnode child))
                        (storage_object_delete (rtsnode child) w)
                 else storage_object_delete (rtsnode child) w)))"
  using assms
  by (simp add: ui_command_delete_def then_do_def assert_root_def Let_def)

lemma ui_command_delete_not_found:
  assumes "root_err env = None"
    and "\<forall>child \<in> set (children w k). node_name child \<noteq> name"
  shows "ui_command_delete env k name w =
           (Inr (), log_error (''No storage object named '' @ name @ ''.'') w)"
  using assms(1) get_child_none [OF assms(2), of env]
  by (simp add: ui_command_delete_def then_do_def assert_root_def)

text \<open>
  C6 (amended). In a root session, when exactly one child shows the given name, the
  deletion deletes the storage object of that child; its backend is deleted exactly when
  no other storage object is left on it, so deleting one of two objects on a shared
  backend leaves the backend. The deletion is logged and the tree is refreshed: the call
  returns normally, the children then being the storage objects left under their display
  names, unless the refresh raises its registration error, which propagates. When no
  child shows the name the call does not raise: it logs the error "No storage object named
  ..." and returns, the driver's tree and the children as they were.
\<close>

theorem ui_command_delete_protocol:
  assumes "root_err env = None"
  shows "(filter (\<lambda>child. node_name child = name) (children w k) = [child] \<longrightarrow>
            storage_objects (rts (snd (ui_command_delete env k name w))) =
              removeAll (rtsnode child) (storage_objects (rts w)) \<and>
            backstores (rts (snd (ui_command_delete env k name w))) =
              (if \<exists>s \<in> set (storage_objects (rts w)).
                     s \<noteq> rtsnode child \<and> so_backstore s = so_backstore (rtsnode child)
               then backstores (rts w)
               else removeAll (so_backstore (rtsnode child)) (backstores (rts w))) \<and>
            shell_log (snd (ui_command_delete env k name w)) =
              shell_log w @ [(Info, ''Deleted storage object '' @ name @ ''.'')] \<and>
            (fst (ui_command_delete env k name w) = Inr () \<or>
             (\<exists>n. fst (ui_command_delete env k name w) =
                    Inl (ValueError (''Name '' @ n @ '' already used by a sibling.'')))) \<and>
            (fst (ui_command_delete env k name w) = Inr () \<longrightarrow>
               (\<forall>k'. set (children (snd (ui_command_delete env k name w)) k') =
                  set (map (shown (rts (snd (ui_command_delete env k name w))))
                         (filter (\<lambda>s. bs_plugin (so_backstore s) = k')
                            (storage_objects (rts (snd (ui_command_delete env k name w))))))))) \<and>
         ((\<forall>child \<in> set (children w k). node_name child \<noteq> name) \<longrightarrow>
            fst (ui_command_delete env k name w) = Inr () \<and>
            rts (snd (ui_command_delete env k name w)) = rts w \<and>
            children (snd (ui_command_delete env k name w)) = children w \<and>
            shell_log (snd (ui_command_delete env k name w)) =
              shell_log w @ [(Error, ''No storage object named '' @ name @ ''.'')])"
proof (intro conjI impI allI)
  assume one: "filter (\<lambda>child. node_name child = name) (children w k) = [child]"
  define w' where "w' = log_info (''Deleted storage object '' @ name @ ''.'')
              (remove_child k child
                (if hba_storage_objects (so_backstore (rtsnode child))
                      (rts (storage_object_delete (rtsnode child) w)) = []
                 then backstore_delete (so_backstore (rtsnode child))
                        (storage_object_delete (rtsnode child) w)
                 else storage_object_delete (rtsnode child) w))"
  have eq: "ui_command_delete env k name w = root_refresh w'"
    unfolding w'_def using assms get_child_unique [OF one] by (rule ui_command_delete_found)
  have sos: "storage_objects (rts w') = removeAll (rtsnode child) (storage_objects (rts w))"
    unfolding w'_def remaining_storage_objects
    by (auto simp: log_info_def remove_child_def backstore_delete_def
          storage_object_delete_def filter_id_conv)
  have bss: "backstores (rts w') =
              (if \<exists>s \<in> set (storage_objects (rts w)).
                     s \<noteq> rtsnode child \<and> so_backstore s = so_backstore (rtsnode child)
               then backstores (rts w)
               else removeAll (so_backstore (rtsnode child)) (backstores (rts w)))"
    unfolding w'_def remaining_storage_objects
    by (auto simp: log_info_def remove_child_def backstore_delete_def storage_object_delete_def)
  have lg: "shell_log w' = shell_log w @ [(Info, ''Deleted storage object '' @ name @ ''.'')]"
    unfolding w'_def
    by (simp add: log_info_def remove_child_def backstore_delete_def storage_object_delete_def)
  show "storage_objects (rts (snd (ui_command_delete env k name w))) =
              removeAll (rtsnode child) (storage_objects (rts w))"
    by (simp add: eq root_refresh_frame sos)
  show "backstores (rts (snd (ui_command_delete env k name w))) =
              (if \<exists>s \<in> set (storage_objects (rts w)).
                     s \<noteq> rtsnode child \<and> so_backstore s = so_backstore (rtsnode child)
               then backstores (rts w)
               else removeAll (so_backstore (rtsnode child)) (backstores (rts w)))"
    unfolding eq using bss by (simp add: root_refresh_frame)
  show "shell_log (snd (ui_command_delete env k name w)) =
              shell_log w @ [(Info, ''Deleted storage object '' @ name @ ''.'')]"
    by (simp add: eq root_refresh_frame lg)
  show "fst (ui_command_delete env k name w) = Inr () \<or>
             (\<exists>n. fst (ui_command_delete env k name w) =
                    Inl (ValueError (''Name '' @ n @ '' already used by a sibling.'')))"
    unfolding eq by (rule root_refresh_outcome)
  fix k'
  assume "fst (ui_command_delete env k name w) = Inr ()"
  then have "fst (root_refresh w') = Inr ()" by (simp add: eq)
  then have "children (snd (root_refresh w')) k' =
      map (shown (rts w')) (filter (\<lambda>s. bs_plugin (so_backstore s) = k') (storage_objects (rts w')))"
    by (rule root_refresh_children)
  then show "set (children (snd (ui_command_delete env k name w)) k') =
                  set (map (shown (rts (snd (ui_command_delete env k name w))))
                         (filter (\<lambda>s. bs_plugin (so_backstore s) = k')
                            (storage_objects (rts (snd (ui_command_delete env k name w))))))"
    by (simp add: eq root_refresh_frame)
next
  assume none: "\<forall>child \<in> set (children w k). node_name child \<noteq> name"
  note eq = ui_command_delete_not_found [OF assms none]
  show "fst (ui_command_delete env k name w) = Inr ()" by (simp add: eq)
  show "rts (snd (ui_command_delete env k name w)) = rts w" by (simp add: eq log_error_def)
  show "children (snd (ui_command_delete env k name w)) = children w"
    by (simp add: eq log_error_def)
  show "shell_log (snd (ui_command_delete env k name w)) =
              shell_log w @ [(Error, ''No storage object named '' @ name @ ''.'')]"
    by (simp add: eq log_error_def)
qed

theorem ui_command_delete_protocol_witness:
  "root_err root_session = None \<and>
   filter (\<lambda>child. node_name child = ''other'') (children legacy_world fileio) =
     [\<lparr>node_name = ''other'', rtsnode = other_b\<rparr>] \<and>
   storage_objects (rts (snd (ui_command_delete root_session fileio ''other'' legacy_world))) =
     [disk_a, disk_b, disk_c, ram_a, ram_b] \<and>
   backstores (rts (snd (ui_command_delete root_session fileio ''other'' legacy_world))) =
     backstores legacy_root \<and>
   filter (\<lambda>child. node_name child = ''disk_0'') (children legacy_world fileio) =
     [\<lparr>node_name = ''disk_0'', rtsnode = disk_a\<rparr>] \<and>
   storage_objects (rts (snd (ui_command_delete root_session fileio ''disk_0'' legacy_world))) =
     [disk_b, other_b, disk_c, ram_a, ram_b] \<and>
   backstores (rts (snd (ui_command_delete root_session fileio ''disk_0'' legacy_world))) =
     [\<lparr>bs_plugin = fileio, bs_index = 1\<rparr>, \<lparr>bs_plugin = iblock, bs_index = 0\<rparr>,
      \<lparr>bs_plugin = rd_mcp, bs_index = 0\<rparr>, \<lparr>bs_plugin = rd_mcp, bs_index = 1\<rparr>] \<and>
   shell_log (snd (ui_command_delete root_session fileio ''disk_0'' legacy_world)) =
     [(Info, ''Deleted storage object disk_0.'')] \<and>
   ''disk'' \<notin> set (map node_name (children legacy_world fileio)) \<and>
   fst (ui_command_delete root_session fileio ''disk'' legacy_world) = Inr () \<and>
   shell_log (snd (ui_command_delete root_session fileio ''disk'' legacy_world)) =
     [(Error, ''No storage object named disk.'')]"
proof -
  have root: "root_err root_session = None" by (simp add: root_session_def)
  have ne: "disk_a \<noteq> disk_b" "disk_a \<noteq> other_b" "disk_a \<noteq> disk_c" "disk_b \<noteq> other_b"
    "disk_b \<noteq> disk_c" "other_b \<noteq> disk_c" "ram_a \<noteq> disk_a" "ram_a \<noteq> other_b" "ram_b \<noteq> disk_a"
    "ram_b \<noteq> other_b"
    by (simp_all add: legacy_defs)
  have f1: "filter (\<lambda>child. node_name child = ''other'') (children legacy_world fileio) =
     [\<lparr>node_name = ''other'', rtsnode = other_b\<rparr>]"
    by (simp add: legacy_world_tree)
  have f2: "filter (\<lambda>child. node_name child = ''disk_0'') (children legacy_world fileio) =
     [\<lparr>node_name = ''disk_0'', rtsnode = disk_a\<rparr>]"
    by (simp add: legacy_world_tree)
  have none: "\<forall>child \<in> set (children legacy_world fileio). node_name child \<noteq> ''disk''"
    by (simp add: legacy_world_tree)
  have absent: "''disk'' \<notin> set (map node_name (children legacy_world fileio))"
    by (simp add: legacy_world_tree)
  have sos: "storage_objects legacy_root = [disk_a, disk_b, other_b, disk_c, ram_a, ram_b]"
    by (simp add: legacy_root_def)
  have hb: "so_backstore disk_a = \<lparr>bs_plugin = fileio, bs_index = 0\<rparr>"
    "so_backstore disk_b = \<lparr>bs_plugin = fileio, bs_index = 1\<rparr>"
    "so_backstore other_b = \<lparr>bs_plugin = fileio, bs_index = 1\<rparr>"
    "so_backstore disk_c = \<lparr>bs_plugin = iblock, bs_index = 0\<rparr>"
    "so_backstore ram_a = \<lparr>bs_plugin = rd_mcp, bs_index = 0\<rparr>"
    "so_backstore ram_b = \<lparr>bs_plugin = rd_mcp, bs_index = 1\<rparr>"
    by (simp_all add: legacy_defs)
  show ?thesis
    using root f1 f2 absent
      ui_command_delete_protocol [OF root, of "''other''" legacy_world fileio
        "\<lparr>node_name = ''other'', rtsnode = other_b\<rparr>"]
      ui_command_delete_protocol [OF root, of "''disk_0''" legacy_world fileio
        "\<lparr>node_name = ''disk_0'', rtsnode = disk_a\<rparr>"]
      ui_command_delete_protocol [OF root, of "''disk''" legacy_world fileio]
    by (simp add: none legacy_world_tree(1,2) sos ne ne [symmetric] hb)
       (simp add: legacy_root_def)
qed

text \<open>
  C6 as stated has the call fail with a not-found error when no child has the name. With
  no children at all, deleting \<^verbatim>\<open>nope\<close> returns normally; the error is a line of the log.
\<close>

theorem ui_command_delete_returns_normally:
  "children empty_world rd_dr = [] \<and>
   fst (ui_command_delete root_session rd_dr ''nope'' empty_world) = Inr () \<and>
   shell_log (snd (ui_command_delete root_session rd_dr ''nope'' empty_world)) =
     [(Error, ''No storage object named nope.'')]"
  by (simp add: ui_command_delete_def then_do_def assert_root_def get_child_def log_error_def
        root_session_def empty_world_def)

text \<open>
  A name that two children show: which storage object the deletion removes depends on
  the iteration order of the set of children.
\<close>

lemma ui_command_delete_ambiguous_name:
  "filter (\<lambda>child. node_name child = ''disk_0'') (children ambiguous_world fileio) =
     [\<lparr>node_name = ''disk_0'', rtsnode = disk_0_c\<rparr>, \<lparr>node_name = ''disk_0'', rtsnode = disk_a\<rparr>]"
  "storage_objects (rts (snd (ui_command_delete (root_session\<lparr>child_order := (\<lambda>_. 0)\<rparr>) fileio
     ''disk_0'' ambiguous_world))) = [disk_a, disk_b]"
  "storage_objects (rts (snd (ui_command_delete (root_session\<lparr>child_order := (\<lambda>_. 1)\<rparr>) fileio
     ''disk_0'' ambiguous_world))) = [disk_0_c, disk_b]"
proof -
  have tree: "children ambiguous_world fileio =
      [\<lparr>node_name = ''disk_0'', rtsnode = disk_0_c\<rparr>, \<lparr>node_name = ''disk_0'', rtsnode = disk_a\<rparr>,
       \<lparr>node_name = ''disk_1'', rtsnode = disk_b\<rparr>]"
    and root: "storage_objects (rts ambiguous_world) = [disk_0_c, disk_a, disk_b]"
    by (simp_all add: ambiguous_world_def disk_0_c_def disk_a_def disk_b_def tree_defs
          str_nat.simps)
  show found: "filter (\<lambda>child. node_name child = ''disk_0'') (children ambiguous_world fileio) =
     [\<lparr>node_name = ''disk_0'', rtsnode = disk_0_c\<rparr>, \<lparr>node_name = ''disk_0'', rtsnode = disk_a\<rparr>]"
    by (simp add: tree)
  have ne: "disk_0_c \<noteq> disk_a" "disk_0_c \<noteq> disk_b" "disk_a \<noteq> disk_b"
    by (simp_all add: disk_0_c_def disk_a_def disk_b_def)
  have hb: "so_backstore disk_0_c = \<lparr>bs_plugin = fileio, bs_index = 2\<rparr>"
    "so_backstore disk_a = \<lparr>bs_plugin = fileio, bs_index = 0\<rparr>"
    "so_backstore disk_b = \<lparr>bs_plugin = fileio, bs_index = 1\<rparr>"
    by (simp_all add: disk_0_c_def disk_a_def disk_b_def)
  have g0: "get_child (root_session\<lparr>child_order := (\<lambda>_. 0)\<rparr>) fileio ''disk_0'' ambiguous_world =
      Inr \<lparr>node_name = ''disk_0'', rtsnode = disk_0_c\<rparr>"
    and g1: "get_child (root_session\<lparr>child_order := (\<lambda>_. 1)\<rparr>) fileio ''disk_0'' ambiguous_world =
      Inr \<lparr>node_name = ''disk_0'', rtsnode = disk_a\<rparr>"
    by (simp_all add: get_child_def found)
  have r: "root_err (root_session\<lparr>child_order := c\<rparr>) = None" for c
    by (simp add: root_session_def)
  show "storage_objects (rts (snd (ui_command_delete (root_session\<lparr>child_order := (\<lambda>_. 0)\<rparr>) fileio
     ''disk_0'' ambiguous_world))) = [disk_a, disk_b]"
    unfolding ui_command_delete_found [OF r g0]
    by (simp add: root_refresh_frame log_info_def remove_child_def backstore_delete_def
          storage_object_delete_def hba_storage_objects_def root ne ne [symmetric] hb)
  show "storage_objects (rts (snd (ui_command_delete (root_session\<lparr>child_order := (\<lambda>_. 1)\<rparr>) fileio
     ''disk_0'' ambiguous_world))) = [disk_0_c, disk_b]"
    unfolding ui_command_delete_found [OF r g1]
    by (simp add: root_refresh_frame log_info_def remove_child_def backstore_delete_def
          storage_object_delete_def hba_storage_objects_def root ne ne [symmetric] hb)
qed

text \<open>
  C10. When the name matches no child, the deletion changes nothing: the driver's tree
  (storage objects and backends), the children of every node and the file system are as
  before, whether or not the session is root.
\<close>

theorem ui_command_delete_unknown_name:
  assumes "\<forall>child \<in> set (children w k). node_name child \<noteq> name"
  shows "rts (snd (ui_command_delete env k name w)) = rts w \<and>
         children (snd (ui_command_delete env k name w)) = children w \<and>
         fs (snd (ui_command_delete env k name w)) = fs w"
  using get_child_none [OF assms, of env]
  by (simp add: ui_command_delete_def then_do_def assert_root_def log_error_def
        split: option.splits)

theorem ui_command_delete_unknown_name_witness:
  "''disk'' \<notin> set (map node_name (children legacy_world fileio)) \<and>
   rts (snd (ui_command_delete root_session fileio ''disk'' legacy_world)) = rts legacy_world \<and>
   children (snd (ui_command_delete root_session fileio ''disk'' legacy_world)) =
     children legacy_world"
proof -
  have none: "\<forall>child \<in> set (children legacy_world fileio). node_name child \<noteq> ''disk''"
    by (simp add: legacy_world_tree)
  show ?thesis
    using none ui_command_delete_unknown_name [OF none, of root_session] by auto
qed

section \<open>Creation\<close>

subsection \<open>The entry points of pscsi, rd\_dr, rd\_mcp and iblock\<close>

text \<open>
  Each of the four creates one backstore and deletes it again when the storage object
  cannot be created: a failed creation leaves the driver's tree as it was, a successful
  one adds one backstore and the storage object on it.
\<close>

lemma prm_gen_wwn_eq:
  "prm_gen_wwn generate_wwn w =
     (ui_eval_param generate_wwn True,
      w\<lparr>shell_log := shell_log w @
          [(Info, case ui_eval_param generate_wwn True of True \<Rightarrow> ''Generating a wwn serial.''
                  | False \<Rightarrow> ''Not generating a wwn serial.'')]\<rparr>)"
  by (simp add: prm_gen_wwn_def log_info_def Let_def)

lemma prm_buffered_eq:
  "prm_buffered buffered w =
     (ui_eval_param buffered True,
      w\<lparr>shell_log := shell_log w @
          [(Info, case ui_eval_param buffered True of True \<Rightarrow> ''Using buffered mode.''
                  | False \<Rightarrow> ''Not using buffered mode.'')]\<rparr>)"
  by (simp add: prm_buffered_def log_info_def Let_def)

lemma Backstore_eq:
  "Backstore env k i w =
     (case (if \<lparr>bs_plugin = k, bs_index = i\<rparr> \<in> set (backstores (rts w))
            then Some (RTSLibError ''This backstore already exists in configFS.'')
            else hba_err env k i) of
        Some e \<Rightarrow> (Inl e, w)
      | None \<Rightarrow>
          (Inr \<lparr>bs_plugin = k, bs_index = i\<rparr>,
           w\<lparr>rts := (rts w)\<lparr>backstores := backstores (rts w) @ [\<lparr>bs_plugin = k, bs_index = i\<rparr>]\<rparr>\<rparr>))"
  by (simp add: Backstore_def Let_def)

lemma filter_other_backstore:
  "\<forall>so \<in> set sos. so_backstore so \<in> set bs \<Longrightarrow> hba \<notin> set bs
   \<Longrightarrow> filter (\<lambda>so. so_backstore so \<noteq> hba) sos = sos"
  by (auto simp: filter_id_conv)

lemma pscsi_create_failure_rolls_back:
  assumes "live_backstores (rts w)"
    and "fst (pscsi_ui_command_create env name dev w) = Inl e"
  shows "rts (snd (pscsi_ui_command_create env name dev w)) = rts w"
  using assms
  by (auto simp: pscsi_ui_command_create_def then_do_def Backstore_eq StorageObject_def Let_def
        backstore_delete_def live_backstores_def filter_other_backstore log_info_def
        assert_available_so_name_def UIStorageObject_def
      split: sum.splits option.splits if_splits)

lemma pscsi_create_success_one_backstore:
  assumes "fst (pscsi_ui_command_create env name dev w) = Inr r"
  shows "\<exists>i args. \<lparr>bs_plugin = pscsi, bs_index = i\<rparr> \<notin> set (backstores (rts w)) \<and>
           r = Some \<lparr>node_name = name,
                     rtsnode = \<lparr>so_backstore = \<lparr>bs_plugin = pscsi, bs_index = i\<rparr>,
                                so_name = name, so_args = args\<rparr>\<rparr> \<and>
           rts (snd (pscsi_ui_command_create env name dev w)) =
             \<lparr>backstores = backstores (rts w) @ [\<lparr>bs_plugin = pscsi, bs_index = i\<rparr>],
              storage_objects = storage_objects (rts w) @
                [\<lparr>so_backstore = \<lparr>bs_plugin = pscsi, bs_index = i\<rparr>,
                  so_name = name, so_args = args\<rparr>]\<rparr>"
  using assms
  by (auto simp: pscsi_ui_command_create_def then_do_def Backstore_eq StorageObject_def Let_def
        log_info_def assert_available_so_name_def UIStorageObject_def new_node_def
      split: sum.splits option.splits if_splits)

lemma rd_dr_create_failure_rolls_back:
  assumes "live_backstores (rts w)"
    and "fst (rd_dr_ui_command_create env name size' generate_wwn w) = Inl e"
  shows "rts (snd (rd_dr_ui_command_create env name size' generate_wwn w)) = rts w"
  using assms
  by (auto simp: rd_dr_ui_command_create_def then_do_def Backstore_eq StorageObject_def Let_def
        backstore_delete_def live_backstores_def filter_other_backstore log_info_def
        assert_available_so_name_def UIStorageObject_def prm_gen_wwn_eq
      split: sum.splits option.splits if_splits)

lemma rd_dr_create_success_one_backstore:
  assumes "fst (rd_dr_ui_command_create env name size' generate_wwn w) = Inr r"
  shows "\<exists>i args. \<lparr>bs_plugin = rd_dr, bs_index = i\<rparr> \<notin> set (backstores (rts w)) \<and>
           r = Some \<lparr>node_name = name,
                     rtsnode = \<lparr>so_backstore = \<lparr>bs_plugin = rd_dr, bs_index = i\<rparr>,
                                so_name = name, so_args = args\<rparr>\<rparr> \<and>
           rts (snd (rd_dr_ui_command_create env name size' generate_wwn w)) =
             \<lparr>backstores = backstores (rts w) @ [\<lparr>bs_plugin = rd_dr, bs_index = i\<rparr>],
              storage_objects = storage_objects (rts w) @
                [\<lparr>so_backstore = \<lparr>bs_plugin = rd_dr, bs_index = i\<rparr>,
                  so_name = name, so_args = args\<rparr>]\<rparr>"
  using assms
  by (auto simp: rd_dr_ui_command_create_def then_do_def Backstore_eq StorageObject_def Let_def
        log_info_def assert_available_so_name_def UIStorageObject_def new_node_def prm_gen_wwn_eq
      split: sum.splits option.splits if_splits)

lemma rd_mcp_create_failure_rolls_back:
  assumes "live_backstores (rts w)"
    and "fst (rd_mcp_ui_command_create env name size' generate_wwn w) = Inl e"
  shows "rts (snd (rd_mcp_ui_command_create env name size' generate_wwn w)) = rts w"
  using assms
  by (auto simp: rd_mcp_ui_command_create_def then_do_def Backstore_eq StorageObject_def Let_def
        backstore_delete_def live_backstores_def filter_other_backstore log_info_def
        assert_available_so_name_def UIStorageObject_def prm_gen_wwn_eq
      split: sum.splits option.splits if_splits)

lemma rd_mcp_create_success_one_backstore:
  assumes "fst (rd_mcp_ui_command_create env name size' generate_wwn w) = Inr r"
  shows "\<exists>i args. \<lparr>bs_plugin = rd_mcp, bs_index = i\<rparr> \<notin> set (backstores (rts w)) \<and>
           r = Some \<lparr>node_name = name,
                     rtsnode = \<lparr>so_backstore = \<lparr>bs_plugin = rd_mcp, bs_index = i\<rparr>,
                                so_name = name, so_args = args\<rparr>\<rparr> \<and>
           rts (snd (rd_mcp_ui_command_create env name size' generate_wwn w)) =
             \<lparr>backstores = backstores (rts w) @ [\<lparr>bs_plugin = rd_mcp, bs_index = i\<rparr>],
              storage_objects = storage_objects (rts w) @
                [\<lparr>so_backstore = \<lparr>bs_plugin = rd_mcp, bs_index = i\<rparr>,
                  so_name = name, so_args = args\<rparr>]\<rparr>"
  using assms
  by (auto simp: rd_mcp_ui_command_create_def then_do_def Backstore_eq StorageObject_def Let_def
        log_info_def assert_available_so_name_def UIStorageObject_def new_node_def prm_gen_wwn_eq
      split: sum.splits option.splits if_splits)

lemma iblock_create_failure_rolls_back:
  assumes "live_backstores (rts w)"
    and "fst (iblock_ui_command_create env name dev generate_wwn w) = Inl e"
  shows "rts (snd (iblock_ui_command_create env name dev generate_wwn w)) = rts w"
  using assms
  by (auto simp: iblock_ui_command_create_def then_do_def Backstore_eq StorageObject_def Let_def
        backstore_delete_def live_backstores_def filter_other_backstore log_info_def
        assert_available_so_name_def UIStorageObject_def prm_gen_wwn_eq
      split: sum.splits option.splits if_splits)

lemma iblock_create_success_one_backstore:
  assumes "fst (iblock_ui_command_create env name dev generate_wwn w) = Inr r"
  shows "\<exists>i args. \<lparr>bs_plugin = iblock, bs_index = i\<rparr> \<notin> set (backstores (rts w)) \<and>
           r = Some \<lparr>node_name = name,
                     rtsnode = \<lparr>so_backstore = \<lparr>bs_plugin = iblock, bs_index = i\<rparr>,
                                so_name = name, so_args = args\<rparr>\<rparr> \<and>
           rts (snd (iblock_ui_command_create env name dev generate_wwn w)) =
             \<lparr>backstores = backstores (rts w) @ [\<lparr>bs_plugin = iblock, bs_index = i\<rparr>],
              storage_objects = storage_objects (rts w) @
                [\<lparr>so_backstore = \<lparr>bs_plugin = iblock, bs_index = i\<rparr>,
                  so_name = name, so_args = args\<rparr>]\<rparr>"
  using assms
  by (auto simp: iblock_ui_command_create_def then_do_def Backstore_eq StorageObject_def Let_def
        log_info_def assert_available_so_name_def UIStorageObject_def new_node_def prm_gen_wwn_eq
      split: sum.splits option.splits if_splits)

subsection \<open>The fileio entry point\<close>

text \<open>
  \<^verbatim>\<open>_create_file\<close> does produce a file of the requested length, sparse or not, when no
  write fails.
\<close>

lemma write_zeros_no_error:
  "(\<And>c. \<not> write_err env c) \<Longrightarrow>
   write_zeros env size' content = Some (content @ replicate size' (CHR 0x00))"
proof (induction env size' content rule: write_zeros.induct)
  case (1 env size' content)
  show ?case
  proof (cases "size' > 0")
    case True
    have "write_zeros env (size' - min size' 1024) (content @ replicate (min size' 1024) (CHR 0x00)) =
            Some ((content @ replicate (min size' 1024) (CHR 0x00))
                    @ replicate (size' - min size' 1024) (CHR 0x00))"
      using "1.IH" [OF True _ refl] "1.prems" by simp
    moreover have "replicate (min size' 1024) (CHR 0x00) @ replicate (size' - min size' 1024) (CHR 0x00)
                     = replicate size' (CHR 0x00)"
      by (simp add: replicate_add [symmetric])
    ultimately show ?thesis using True "1.prems"
      by (simp add: write_zeros.simps [of env size'] Let_def)
  next
    case False
    then show ?thesis by (simp add: write_zeros.simps [of env 0])
  qed
qed

lemma create_file_exact_size:
  assumes "\<And>c. \<not> write_err env c"
  shows "fst (create_file env filename size' sparse w) = Inr () \<and>
         fs (snd (create_file env filename size' sparse w)) filename =
           Some (RegularFile (replicate size' (CHR 0x00))) \<and>
         getsize (fs (snd (create_file env filename size' sparse w))) filename = size'"
  using write_zeros_no_error [of env size' "[]", OF assms]
  by (simp add: create_file_def Let_def log_info_def getsize_def)

text \<open>
  For a path that is not a device and a size that is given, the \<^verbatim>\<open>sparse\<close> parameter
  has no effect: the branch taken hands the size to the driver. \<^verbatim>\<open>_create_file\<close> is
  never reached at all: the branch that calls it needs a device path with a size, and a
  device exists and is no regular file, so the error for such a path is raised first. The
  entry point leaves the file system as it was.
\<close>

lemma fileio_create_sparse_unused:
  assumes "\<not> is_dev_path (fs w) file_or_dev"
  shows "fileio_ui_command_create env name file_or_dev (Some s) generate_wwn buffered sparse w =
         fileio_ui_command_create env name file_or_dev (Some s) generate_wwn buffered sparse' w"
  using assms
  by (auto simp: fileio_ui_command_create_def then_do_def Backstore_eq Let_def
      split: sum.splits option.splits if_splits)

lemma device_exists:
  assumes "is_dev_path files path"
  shows "exists_path files path" and "\<not> isfile files path"
  using assms
  by (auto simp: is_dev_path_def get_block_type_def is_disk_partition_def exists_path_def
        isfile_def split: option.splits fs_node.splits)

lemma fileio_create_never_writes:
  "fs (snd (fileio_ui_command_create env name file_or_dev size' generate_wwn buffered sparse w)) =
     fs w"
proof -
  note defs = fileio_ui_command_create_def then_do_def Backstore_eq StorageObject_def Let_def
          backstore_delete_def log_info_def UIStorageObject_def prm_gen_wwn_eq prm_buffered_eq
  consider (device) "size' = None" "is_dev_path (fs w) file_or_dev"
    | (regular) s where "size' = Some s" "\<not> is_dev_path (fs w) file_or_dev"
    | (nosize) "size' = None" "\<not> is_dev_path (fs w) file_or_dev"
    | (devsize) s where "size' = Some s" "is_dev_path (fs w) file_or_dev"
    by (cases size') auto
  then show ?thesis
  proof cases
    case device
    then show ?thesis by (auto simp: defs split: sum.splits option.splits)
  next
    case regular
    then show ?thesis by (auto simp: defs split: sum.splits option.splits)
  next
    case nosize
    then show ?thesis by (auto simp: defs split: sum.splits option.splits)
  next
    case devsize
    then show ?thesis using device_exists [OF devsize(2)]
      by (auto simp: defs split: sum.splits option.splits)
  qed
qed

text \<open>
  The backstore made first (line 356 of the source) stays in the tree without a storage
  object, whatever the arguments and whatever the outcome.
\<close>

lemma fileio_create_keeps_first_backstore:
  assumes "assert_root env = Inr ()"
    and "assert_available_so_name fileio name w = Inr ()"
    and "next_hba_index fileio (rts w) = Inr i"
    and "hba_err env fileio i = None"
    and "live_backstores (rts w)"
  shows "\<lparr>bs_plugin = fileio, bs_index = i\<rparr> \<notin> set (backstores (rts w)) \<and>
         \<lparr>bs_plugin = fileio, bs_index = i\<rparr> \<in> set (backstores (rts (snd
            (fileio_ui_command_create env name file_or_dev size' generate_wwn buffered sparse w)))) \<and>
         hba_storage_objects \<lparr>bs_plugin = fileio, bs_index = i\<rparr> (rts (snd
            (fileio_ui_command_create env name file_or_dev size' generate_wwn buffered sparse w))) = []"
proof -
  let ?hba = "\<lparr>bs_plugin = fileio, bs_index = i\<rparr>"
  let ?run = "fileio_ui_command_create env name file_or_dev size' generate_wwn buffered sparse w"
  have fresh: "?hba \<notin> set (backstores (rts w))"
    using assms(3) by (rule next_hba_index_unused)
  have none: "\<forall>so \<in> set (storage_objects (rts w)). so_backstore so \<noteq> ?hba"
    using assms(5) fresh by (auto simp: live_backstores_def)
  have other: "j \<noteq> i"
    if "next_hba_index fileio ((rts w)\<lparr>backstores := backstores (rts w) @ [?hba]\<rparr>) = Inr j" for j
    using that by (rule next_hba_index_other)
  note defs = fileio_ui_command_create_def then_do_def Backstore_eq StorageObject_def Let_def
          backstore_delete_def hba_storage_objects_def log_info_def UIStorageObject_def
          prm_gen_wwn_eq prm_buffered_eq filter_empty_conv
  consider (device) "size' = None" "is_dev_path (fs w) file_or_dev"
    | (regular) s where "size' = Some s" "\<not> is_dev_path (fs w) file_or_dev"
    | (nosize) "size' = None" "\<not> is_dev_path (fs w) file_or_dev"
    | (devsize) s where "size' = Some s" "is_dev_path (fs w) file_or_dev"
    by (cases size') auto
  then have "?hba \<in> set (backstores (rts (snd ?run))) \<and> hba_storage_objects ?hba (rts (snd ?run)) = []"
  proof cases
    case device
    then show ?thesis using assms(1,2,3,4) fresh none other
      by (auto simp: defs split: sum.splits option.splits)
  next
    case regular
    then show ?thesis using assms(1,2,3,4) fresh none other
      by (auto simp: defs split: sum.splits option.splits)
  next
    case nosize
    then show ?thesis using assms(1,2,3,4) fresh none
      by (auto simp: defs)
  next
    case devsize
    then show ?thesis using assms(1,2,3,4) fresh none
      by (auto simp: defs create_file_def split: sum.splits option.splits)
  qed
  then show ?thesis using fresh by simp
qed

subsection \<open>Runs of the fileio entry point\<close>

text \<open>
  C1. The claim has every kind delete the backend it has just created when the storage
  object cannot be created, so that no orphaned backend is left. The fileio entry point
  creates one backstore before it looks at its arguments and a second one in the branch
  that creates the storage object; on failure it deletes the second only. With a driver
  that refuses the storage object, creating \<^verbatim>\<open>f0\<close> on the block device
  \<^verbatim>\<open>/dev/sdb\<close> in an empty tree raises the driver's error and leaves the backstore
  fileio/0, without a storage object, behind.
\<close>

theorem fileio_create_failure_leaves_backstore:
  "fst (fileio_ui_command_create busy_session ''f0'' ''/dev/sdb'' None None None None sdb_world) =
     Inl (RTSLibError ''device busy'') \<and>
   rts (snd (fileio_ui_command_create busy_session ''f0'' ''/dev/sdb'' None None None None sdb_world)) =
     \<lparr>backstores = [\<lparr>bs_plugin = fileio, bs_index = 0\<rparr>], storage_objects = []\<rparr>"
  by (simp add: run_defs for_index_0 for_index_1)

text \<open>
  C2. The claim has no backend without a storage object remain after a creation, a
  successful one adding exactly one backend that carries the new object. The same
  creation with a driver that accepts the storage object succeeds and adds two
  backstores to the empty tree: fileio/1 with the new object and fileio/0 with none.
\<close>

theorem fileio_create_success_two_backstores:
  "fst (fileio_ui_command_create root_session ''f0'' ''/dev/sdb'' None None None None sdb_world) =
     Inr (Some \<lparr>node_name = ''f0'',
                 rtsnode = \<lparr>so_backstore = \<lparr>bs_plugin = fileio, bs_index = 1\<rparr>, so_name = ''f0'',
                             so_args = FileIOArgs ''/dev/sdb'' None True True\<rparr>\<rparr>) \<and>
   rts (snd (fileio_ui_command_create root_session ''f0'' ''/dev/sdb'' None None None None sdb_world)) =
     \<lparr>backstores = [\<lparr>bs_plugin = fileio, bs_index = 0\<rparr>, \<lparr>bs_plugin = fileio, bs_index = 1\<rparr>],
      storage_objects = [\<lparr>so_backstore = \<lparr>bs_plugin = fileio, bs_index = 1\<rparr>, so_name = ''f0'',
                           so_args = FileIOArgs ''/dev/sdb'' None True True\<rparr>]\<rparr> \<and>
   hba_storage_objects \<lparr>bs_plugin = fileio, bs_index = 0\<rparr>
     (rts (snd (fileio_ui_command_create root_session ''f0'' ''/dev/sdb'' None None None None sdb_world))) = []"
  by (simp add: run_defs for_index_0 for_index_1 hba_storage_objects_def)

text \<open>
  C3. On a path that does not exist, a creation without a size raises the error that a size
  is needed, as the claim says. With a size the claim has a backing file of exactly that
  length produced, truncated when sparse and zero-filled otherwise. The creation takes the
  branch for a given size and a path that is no device: it hands path and size to the
  driver and returns the node, sparse or not; no file is written at the path.
\<close>

theorem fileio_create_new_path_no_file:
  "fst (fileio_ui_command_create root_session ''f0'' ''/tmp/new.img'' None None None None
          empty_world) =
     Inl (ExecutionError ''Attempting to create file for new fileio backstore, need a size'') \<and>
   fst (fileio_ui_command_create root_session ''f0'' ''/tmp/new.img'' (Some ''4096'') None None
          (Some False) empty_world) =
     Inr (Some \<lparr>node_name = ''f0'',
                 rtsnode = \<lparr>so_backstore = \<lparr>bs_plugin = fileio, bs_index = 1\<rparr>, so_name = ''f0'',
                             so_args = FileIOArgs ''/tmp/new.img'' (Some ''4096'') True True\<rparr>\<rparr>) \<and>
   fs (snd (fileio_ui_command_create root_session ''f0'' ''/tmp/new.img'' (Some ''4096'') None None
              (Some False) empty_world)) ''/tmp/new.img'' = None \<and>
   fs (snd (fileio_ui_command_create root_session ''f0'' ''/tmp/new.img'' (Some ''4096'') None None
              None empty_world)) ''/tmp/new.img'' = None \<and>
   shell_log (snd (fileio_ui_command_create root_session ''f0'' ''/tmp/new.img'' (Some ''4096'')
                     None None (Some False) empty_world)) =
     [(Info, ''Generating a wwn serial.''), (Info, ''Using buffered mode.''),
      (Info, ''Created fileio f0.'')]"
  by (simp add: run_defs for_index_0 for_index_1)

text \<open>
  C9. The claim has a creation on an existing regular file succeed with a node for the new
  storage object, at the size of the file, a given size being set aside with a note. On
  the four-byte file \<^verbatim>\<open>/tmp/disk.img\<close>, a creation without a size returns
  \<^verbatim>\<open>None\<close>: no storage object and no node are made, and the backstore fileio/0
  stays behind. With the size \<^verbatim>\<open>100\<close> the storage object is created with that size,
  not with the size of the file, and no note is logged.
\<close>

theorem fileio_create_existing_file:
  "fst (fileio_ui_command_create root_session ''f0'' ''/tmp/disk.img'' None None None None image_world) = Inr None \<and>
   rts (snd (fileio_ui_command_create root_session ''f0'' ''/tmp/disk.img'' None None None None image_world)) =
     \<lparr>backstores = [\<lparr>bs_plugin = fileio, bs_index = 0\<rparr>], storage_objects = []\<rparr> \<and>
   children (snd (fileio_ui_command_create root_session ''f0'' ''/tmp/disk.img'' None None None None image_world)) fileio = [] \<and>
   fst (fileio_ui_command_create root_session ''f0'' ''/tmp/disk.img'' (Some ''100'') None None None image_world) =
     Inr (Some \<lparr>node_name = ''f0'',
                 rtsnode = \<lparr>so_backstore = \<lparr>bs_plugin = fileio, bs_index = 1\<rparr>, so_name = ''f0'',
                             so_args = FileIOArgs ''/tmp/disk.img'' (Some ''100'') True True\<rparr>\<rparr>) \<and>
   shell_log (snd (fileio_ui_command_create root_session ''f0'' ''/tmp/disk.img'' (Some ''100'') None None None image_world)) =
     [(Info, ''Generating a wwn serial.''), (Info, ''Using buffered mode.''), (Info, ''Created fileio f0.'')]"
  by (simp add: run_defs for_index_0 for_index_1)

end
